theory Spec2Isabelle
  imports Main "HOL-Library.Multiset" "HOL-Library.Word"
begin

unbundle bit_operations_syntax

section \<open>Data model of cmd/teams.go\<close>

text \<open>
  \<^verbatim>\<open>identity.ID\<close> is an opaque identifier that the commands only compare and use as a
  map key; it is modelled as a natural number.
\<close>

type_synonym ID = nat

text \<open>
  \<^verbatim>\<open>primitive.TeamType\<close> with the three constants the commands switch on
  (\<^verbatim>\<open>primitive.SystemTeamType\<close>, \<^verbatim>\<open>primitive.MachineTeamType\<close>, \<^verbatim>\<open>primitive.UserTeamType\<close>).
\<close>

datatype TeamType = SystemTeamType | MachineTeamType | UserTeamType

text \<open>\<^verbatim>\<open>primitive.Team\<close>: the fields of a team body that the commands read.\<close>

record primitive_Team =
  Name :: string
  TeamType :: TeamType

text \<open>\<^verbatim>\<open>envelope.Team\<close>: an identifier and a body.\<close>

record envelope_Team =
  team_ID :: ID
  team_Body :: primitive_Team

text \<open>\<^verbatim>\<open>envelope.Membership\<close>: \<^verbatim>\<open>Body.OwnerID\<close> and \<^verbatim>\<open>Body.TeamID\<close> are the fields read.\<close>

record envelope_Membership =
  membership_ID :: ID
  OwnerID :: ID
  TeamID :: ID

text \<open>\<^verbatim>\<open>apitypes.Profile\<close>: \<^verbatim>\<open>ID\<close>, \<^verbatim>\<open>Body.Name\<close> and \<^verbatim>\<open>Body.Username\<close>.\<close>

record apitypes_Profile =
  profile_ID :: ID
  profile_Name :: string
  profile_Username :: string

text \<open>\<^verbatim>\<open>api.Session\<close>, read through its methods \<^verbatim>\<open>ID()\<close> and \<^verbatim>\<open>Username()\<close>.\<close>

record api_Session =
  session_ID :: ID
  session_Username :: string

text \<open>\<^verbatim>\<open>envelope.Org\<close>: \<^verbatim>\<open>ID\<close> and \<^verbatim>\<open>Body.Name\<close>.\<close>

record envelope_Org =
  org_ID :: ID
  org_Name :: string

section \<open>The machine-team predicate\<close>

text \<open>
  \<^verbatim>\<open>isMachineTeam\<close> (teams.go, line 520).  The constant \<^verbatim>\<open>primitive.MachineTeamName\<close> is
  declared in package primitive, so the reserved name is the first argument.
\<close>

definition isMachineTeam :: "string \<Rightarrow> primitive_Team \<Rightarrow> bool" where
  "isMachineTeam MachineTeamName team \<longleftrightarrow>
     TeamType team = MachineTeamType \<or>
     (TeamType team = SystemTeamType \<and> Name team = MachineTeamName)"

text \<open>
  The loop head of \<^verbatim>\<open>teamsListCmd\<close> (lines 156 to 159): a team whose body is a machine team
  is skipped with \<^verbatim>\<open>continue\<close>, every other team reaches the body of the loop.
\<close>

fun visibleTeams :: "string \<Rightarrow> envelope_Team list \<Rightarrow> envelope_Team list" where
  "visibleTeams mn [] = []"
| "visibleTeams mn (t # ts) =
     (if isMachineTeam mn (team_Body t) then visibleTeams mn ts
      else t # visibleTeams mn ts)"

section \<open>Errors, outcomes and terminal output\<close>

text \<open>
  Go's \<^verbatim>\<open>error\<close> values.  \<^verbatim>\<open>errs.NewExitError msg\<close> is \<open>ExitError msg\<close>; an error that
  comes back from the remote client is any value of the type, \<open>RemoteError\<close> for one that
  the commands did not build themselves; \<open>Aggregate\<close> is the combined failure.
\<close>

datatype error = ExitError string | RemoteError string | Aggregate "error list"

text \<open>The non-nil entries of a list of error slots, in the order of the slots.\<close>

fun nonNil :: "error option list \<Rightarrow> error list" where
  "nonNil [] = []"
| "nonNil (None # slots) = nonNil slots"
| "nonNil (Some e # slots) = e # nonNil slots"

text \<open>
  Modelled from the spec: \<^verbatim>\<open>errs.MultiError\<close> is called by the commands and declared in
  package errs, outside this file.  Section 4.2 of the specification: the combined failure
  is one value that preserves every non-nil error in the order of the slots, nil slots
  omitted.  Section 7: when exactly one task failed its error is forwarded as it is, and
  an Aggregate wraps the errors when two or more failed.  The commands call
  \<^verbatim>\<open>errs.MultiError\<close> only with a slot that is not nil; for no error at all, about which the
  specification is silent, the model gives the combination of nothing.
\<close>

definition MultiError :: "error option list \<Rightarrow> error" where
  "MultiError slots = (case nonNil slots of [e] \<Rightarrow> e | es \<Rightarrow> Aggregate es)"


text \<open>
  A command either returns its \<^verbatim>\<open>error\<close> result (\<open>None\<close> is nil, success) or panics, which
  ends the process.
\<close>

datatype outcome = Returned "error option" | Panicked string

text \<open>
  What reaches standard output: a line of text, or a line of the tab writer given by its
  cells (the text between the tabs of the format string).  The tab writer holds its lines
  until \<^verbatim>\<open>w.Flush()\<close>; a command that stops before the flush prints none of them.
\<close>

datatype line = Text string | Cells "string list"

record run =
  ret :: outcome
  stdout :: "line list"
  profileRequests :: "ID list list"

text \<open>
  \<^verbatim>\<open>ui.BoldString\<close> and \<^verbatim>\<open>ui.FaintString\<close> belong to another file of package ui; they wrap
  the text in the colour codes of the terminal.  The model keeps the text.
\<close>

definition BoldString :: "string \<Rightarrow> string" where
  "BoldString s = s"

definition FaintString :: "string \<Rightarrow> string" where
  "FaintString s = s"

text \<open>
  Modelled from the spec: \<^verbatim>\<open>plural\<close> belongs to another file of package cmd.  Section 4.4:
  suffix "s" when the count is not 1, no suffix when it is 1.
\<close>

definition plural :: "nat \<Rightarrow> string" where
  "plural n = (if n = 1 then [] else ''s'')"

text \<open>\<^verbatim>\<open>strconv.Itoa\<close> on a count: the decimal digits.\<close>

definition digit :: "nat \<Rightarrow> char" where
  "digit d = (''0123456789'' ! d)"

function Itoa :: "nat \<Rightarrow> string" where
  "Itoa n = (if n < 10 then [digit n] else Itoa (n div 10) @ [digit (n mod 10)])"
  by pat_completeness auto
termination
  by (relation "measure id") auto

declare Itoa.simps [simp del]

section \<open>The collaborators of a command\<close>

text \<open>
  Everything a command receives from outside, one field for each call it makes.  A call of
  the remote client returns its value or its error (\<open>Inl\<close> the error; the value beside an
  error is Go's zero value, nil).  \<^verbatim>\<open>Profiles.ListByID\<close> may return a nil slice without an
  error, which the commands test for: \<open>Inr None\<close>.

  \<^item> \<open>MachineTeamName\<close> is \<^verbatim>\<open>primitive.MachineTeamName\<close>.
  \<^item> \<open>precedence\<close> is the rank by which \<^verbatim>\<open>ByTeamPrecedence\<close> orders teams.
  \<^item> \<open>rangeOrder\<close> is the order in which Go's \<^verbatim>\<open>range\<close> visits the keys of a map; the
    language leaves it open, the properties below ask at most that it is a rearrangement
    of the keys.
  \<^item> \<open>xorshift_Next\<close> is the step of the generator of \<^verbatim>\<open>sort.Sort\<close> (see there).
  \<^item> \<open>tErrRace\<close> fixes the interleaving of the two tasks of \<^verbatim>\<open>orgsMembersListCmd\<close> that
    both assign \<^verbatim>\<open>tErr\<close> (see there).
\<close>

datatype race = BeforeAssign | BeforeTest | BeforeWrap | AfterWrap

record env =
  MachineTeamName :: string
  precedence :: "envelope_Team \<Rightarrow> nat"
  rangeOrder :: "ID list \<Rightarrow> ID list"
  xorshift_Next :: "64 word \<Rightarrow> 64 word"
  tErrRace :: race
  argCheck :: "error option"
  LoadConfig :: "error option"
  selectOrg :: "error + envelope_Org"
  selectTeam :: "error + envelope_Team"
  Session_Who :: "error + api_Session"
  Teams_GetByOrg :: "ID \<Rightarrow> error + envelope_Team list"
  Teams_List :: "ID \<Rightarrow> error + envelope_Team list"
  Memberships_List :: "ID \<Rightarrow> ID option \<Rightarrow> ID option \<Rightarrow> error + envelope_Membership list"
  Profiles_ListByID :: "ID list \<Rightarrow> error + apitypes_Profile list option"
  Orgs_List :: "error + envelope_Org list"

text \<open>The error slot and the value slot that an assignment \<^verbatim>\<open>v, err = call()\<close> fills.\<close>

definition errOf :: "error + 'a \<Rightarrow> error option" where
  "errOf r = (case r of Inl e \<Rightarrow> Some e | Inr v \<Rightarrow> None)"

definition listOf :: "error + 'a list \<Rightarrow> 'a list" where
  "listOf r = (case r of Inl e \<Rightarrow> [] | Inr v \<Rightarrow> v)"

definition ptrOf :: "error + 'a \<Rightarrow> 'a option" where
  "ptrOf r = (case r of Inl e \<Rightarrow> None | Inr v \<Rightarrow> Some v)"

text \<open>A command that returns \<^verbatim>\<open>err\<close> before it has printed or requested anything.\<close>

definition failWith :: "error \<Rightarrow> run" where
  "failWith e = \<lparr>ret = Returned (Some e), stdout = [], profileRequests = []\<rparr>"

text \<open>
  A \<^verbatim>\<open>map[identity.ID]bool\<close> that is used as a set: the list of its keys.  Setting a key
  that is present changes nothing.
\<close>

definition setKey :: "ID \<Rightarrow> ID list \<Rightarrow> ID list" where
  "setKey k ks = (if k \<in> set ks then ks else ks @ [k])"

text \<open>The two panics of the Go runtime that the commands can run into.\<close>

definition nilDereference :: string where
  "nilDereference = ''runtime error: invalid memory address or nil pointer dereference''"

definition sliceBounds :: string where
  "sliceBounds = ''runtime error: slice bounds out of range''"

section \<open>teamsListCmd\<close>

text \<open>
  The loop of the third task (lines 137 to 139):
  \<^verbatim>\<open>for _, m := range memberships { memberOf[*m.Body.TeamID] = true }\<close>.
\<close>

fun markMemberOf :: "envelope_Membership list \<Rightarrow> (ID \<rightharpoonup> bool) \<Rightarrow> (ID \<rightharpoonup> bool)" where
  "markMemberOf [] memberOf = memberOf"
| "markMemberOf (m # ms) memberOf = markMemberOf ms (memberOf(TeamID m \<mapsto> True))"

text \<open>
  The variables after \<^verbatim>\<open>display.Wait()\<close> (line 143): \<^verbatim>\<open>sErr\<close>, \<^verbatim>\<open>tErr\<close>, \<^verbatim>\<open>teams\<close> and
  \<^verbatim>\<open>memberOf\<close>.  The first task assigns \<^verbatim>\<open>session, sErr\<close>; the second assigns
  \<^verbatim>\<open>teams, tErr\<close>; the third waits for the first, calls \<^verbatim>\<open>Memberships.List\<close> only when
  \<^verbatim>\<open>sErr == nil\<close>, assigns its error to \<^verbatim>\<open>sErr\<close> and marks the teams of the memberships it
  received.  The section on the tasks of teamsListCmd below runs the same tasks step by
  step under every interleaving and arrives at these values.
\<close>

definition teamsList_fetch ::
  "env \<Rightarrow> envelope_Org \<Rightarrow> error option \<times> error option \<times> envelope_Team list \<times> (ID \<rightharpoonup> bool)" where
  "teamsList_fetch env org =
     (let who = Session_Who env;
          got = Teams_GetByOrg env (org_ID org);
          (memberships, sErr) =
             (case who of
                Inl e \<Rightarrow> ([], Some e)
              | Inr session \<Rightarrow>
                  (let listed = Memberships_List env (org_ID org) None (Some (session_ID session))
                   in (listOf listed, errOf listed)))
      in (sErr, errOf got, listOf got, markMemberOf memberships Map.empty))"

text \<open>The \<^verbatim>\<open>switch\<close> on the team type (lines 166 to 173).\<close>

definition displayTeamType :: "TeamType \<Rightarrow> string" where
  "displayTeamType teamType =
     (case teamType of
        SystemTeamType \<Rightarrow> ''system''
      | MachineTeamType \<Rightarrow> ''machine''
      | UserTeamType \<Rightarrow> ''user'')"

text \<open>The cells of the line that the loop body writes for a team (lines 163 to 179).\<close>

definition teamRow :: "(ID \<rightharpoonup> bool) \<Rightarrow> envelope_Team \<Rightarrow> string list" where
  "teamRow memberOf t =
     [if memberOf (team_ID t) \<noteq> None then FaintString ''*'' else [],
      Name (team_Body t),
      displayTeamType (TeamType (team_Body t))]"

text \<open>
  The loop over the teams (lines 156 to 180), with the counter \<^verbatim>\<open>numTeams\<close> and the lines
  written to the tab writer so far.
\<close>

fun teamsList_loop ::
  "string \<Rightarrow> (ID \<rightharpoonup> bool) \<Rightarrow> envelope_Team list \<Rightarrow> nat \<times> string list list
     \<Rightarrow> nat \<times> string list list" where
  "teamsList_loop mn memberOf [] (numTeams, w) = (numTeams, w)"
| "teamsList_loop mn memberOf (t # ts) (numTeams, w) =
     (if isMachineTeam mn (team_Body t) then teamsList_loop mn memberOf ts (numTeams, w)
      else teamsList_loop mn memberOf ts (numTeams + 1, w @ [teamRow memberOf t]))"

definition teamsListCmd :: "env \<Rightarrow> run" where
  "teamsListCmd env =
     (case LoadConfig env of Some err \<Rightarrow> failWith err | None \<Rightarrow>
     (case selectOrg env of Inl err \<Rightarrow> failWith err | Inr org \<Rightarrow>
      let (sErr, tErr, teams, memberOf) = teamsList_fetch env org
      in if sErr \<noteq> None \<or> tErr \<noteq> None then
           failWith (MultiError [sErr, tErr, Some (ExitError ''Error fetching teams list'')])
         else
           let (numTeams, w) =
                 teamsList_loop (MachineTeamName env) memberOf teams
                   (0, [[[], BoldString ''Team'', BoldString ''Type'']])
           in \<lparr>ret = Returned None,
               stdout = [Text []] @ map Cells w @
                 [Text [],
                  Text (''Org '' @ org_Name org @ '' has ('' @ FaintString (Itoa numTeams)
                        @ '') team'' @ plural numTeams)],
               profileRequests = []\<rparr>))"

section \<open>teamMembersListCmd\<close>

text \<open>
  The loop over the profiles (lines 269 to 275).  \<^verbatim>\<open>session.Username()\<close> reads the session
  behind the pointer; on a nil session the process panics.
\<close>

fun teamMembers_rows :: "api_Session option \<Rightarrow> apitypes_Profile list \<Rightarrow> string + string list list" where
  "teamMembers_rows session [] = Inr []"
| "teamMembers_rows session (profile # profiles) =
     (case session of
        None \<Rightarrow> Inl nilDereference
      | Some s \<Rightarrow>
          let me = (if session_Username s = profile_Username profile then ''*'' else [])
          in (case teamMembers_rows session profiles of
                Inl p \<Rightarrow> Inl p
              | Inr rows \<Rightarrow>
                  Inr ([me, profile_Name profile, FaintString (profile_Username profile)] # rows)))"

definition teamMembersListCmd :: "env \<Rightarrow> run" where
  "teamMembersListCmd env =
     (case argCheck env of Some err \<Rightarrow> failWith err | None \<Rightarrow>
     (case LoadConfig env of Some err \<Rightarrow> failWith err | None \<Rightarrow>
     (case selectOrg env of Inl err \<Rightarrow> failWith err | Inr org \<Rightarrow>
     (case selectTeam env of Inl err \<Rightarrow> failWith err | Inr team \<Rightarrow>
      let listed = Memberships_List env (org_ID org) (Some (team_ID team)) None;
          memberships = listOf listed;
          mErr = errOf listed;
          who = Session_Who env;
          session = ptrOf who;
          sErr = errOf who
      in if mErr \<noteq> None \<or> sErr \<noteq> None then failWith (MultiError [mErr, sErr])
         else if length memberships = 0 then
           \<lparr>ret = Returned None,
            stdout = [Text (Name (team_Body team) @ '' has no members'')],
            profileRequests = []\<rparr>
         else
           let membershipUserIDs = foldl (\<lambda>ks membership. setKey (OwnerID membership) ks) [] memberships;
               profileIDs = rangeOrder env membershipUserIDs
           in (case Profiles_ListByID env profileIDs of
                 Inl err \<Rightarrow>
                   \<lparr>ret = Returned (Some err), stdout = [], profileRequests = [profileIDs]\<rparr>
               | Inr None \<Rightarrow>
                   \<lparr>ret = Returned (Some (ExitError ''User not found.'')), stdout = [],
                    profileRequests = [profileIDs]\<rparr>
               | Inr (Some profiles) \<Rightarrow>
                   (case teamMembers_rows session profiles of
                      Inl p \<Rightarrow>
                        \<lparr>ret = Panicked p, stdout = [Text []], profileRequests = [profileIDs]\<rparr>
                    | Inr rows \<Rightarrow>
                        \<lparr>ret = Returned None,
                         stdout = [Text []] @
                           map Cells ([[], BoldString ''Name'', BoldString ''Username''] # rows) @
                           [Text [],
                            Text (''Team '' @ Name (team_Body team) @ '' has (''
                                  @ FaintString (Itoa (length memberships)) @ '') member''
                                  @ plural (length memberships))],
                         profileRequests = [profileIDs]\<rparr>))))))"

section \<open>orgsList\<close>


section \<open>sort.Sort\<close>

text \<open>
  Line 910 sorts the teams of a user with \<^verbatim>\<open>sort.Sort\<close> of Go's library.  This section follows
  package sort as it is since Go 1.19, where \<^verbatim>\<open>Sort\<close> is a pattern-defeating quicksort
  (\<^verbatim>\<open>pdqsort\<close>) that hands slices of at most 12 elements to an insertion sort; earlier
  releases sort with another quicksort.  The library documents \<^verbatim>\<open>Sort\<close> as not guaranteed
  to be stable.

  The slice is a list, \<^verbatim>\<open>data.Less(i, j)\<close> is \<open>lt (data ! i) (data ! j)\<close> and
  \<^verbatim>\<open>data.Swap(i, j)\<close> is \<open>Swap data i j\<close>.  Indices are natural numbers; the library keeps
  them inside the slice.
\<close>

definition Swap :: "'a list \<Rightarrow> nat \<Rightarrow> nat \<Rightarrow> 'a list" where
  "Swap data i j = data[i := data ! j, j := data ! i]"

text \<open>
  \<^verbatim>\<open>insertionSort(data, a, b)\<close>: \<open>insertLeft\<close> is the inner loop
  \<^verbatim>\<open>for j := i; j > a && data.Less(j, j-1); j-- { data.Swap(j, j-1) }\<close>, \<open>insertionSortFrom\<close>
  the outer loop \<^verbatim>\<open>for i := a + 1; i < b; i++\<close>.
\<close>

function insertLeft :: "('a \<Rightarrow> 'a \<Rightarrow> bool) \<Rightarrow> 'a list \<Rightarrow> nat \<Rightarrow> nat \<Rightarrow> 'a list" where
  "insertLeft lt data a j =
     (if j > a \<and> lt (data ! j) (data ! (j - 1)) then insertLeft lt (Swap data j (j - 1)) a (j - 1)
      else data)"
  by pat_completeness auto
termination
  by (relation "measure (\<lambda>(lt, data, a, j). j)") auto

declare insertLeft.simps [simp del]

function insertionSortFrom ::
  "('a \<Rightarrow> 'a \<Rightarrow> bool) \<Rightarrow> 'a list \<Rightarrow> nat \<Rightarrow> nat \<Rightarrow> nat \<Rightarrow> 'a list" where
  "insertionSortFrom lt data a i b =
     (if i < b then insertionSortFrom lt (insertLeft lt data a i) a (i + 1) b else data)"
  by pat_completeness auto
termination
  by (relation "measure (\<lambda>(lt, data, a, i, b). b - i)") auto

declare insertionSortFrom.simps [simp del]

definition insertionSort :: "('a \<Rightarrow> 'a \<Rightarrow> bool) \<Rightarrow> 'a list \<Rightarrow> nat \<Rightarrow> nat \<Rightarrow> 'a list" where
  "insertionSort lt data a b = insertionSortFrom lt data a (a + 1) b"

text \<open>
  \<^verbatim>\<open>siftDown(data, lo, hi, first)\<close> and \<^verbatim>\<open>heapSort(data, a, b)\<close>, the fallback of \<^verbatim>\<open>pdqsort\<close>.
  The two loops of \<^verbatim>\<open>heapSort\<close> count \<^verbatim>\<open>i\<close> down to 0.
\<close>

function siftDown ::
  "('a \<Rightarrow> 'a \<Rightarrow> bool) \<Rightarrow> 'a list \<Rightarrow> nat \<Rightarrow> nat \<Rightarrow> nat \<Rightarrow> 'a list" where
  "siftDown lt data root hi first =
     (if 2 * root + 1 \<ge> hi then data
      else
        let child = 2 * root + 1;
            child = (if child + 1 < hi \<and> lt (data ! (first + child)) (data ! (first + child + 1))
                     then child + 1 else child)
        in if \<not> lt (data ! (first + root)) (data ! (first + child)) then data
           else siftDown lt (Swap data (first + root) (first + child)) child hi first)"
  by pat_completeness auto
termination
  by (relation "measure (\<lambda>(lt, data, root, hi, first). hi - root)")
    (auto simp: Let_def split: if_splits)

declare siftDown.simps [simp del]

definition heapSort :: "('a \<Rightarrow> 'a \<Rightarrow> bool) \<Rightarrow> 'a list \<Rightarrow> nat \<Rightarrow> nat \<Rightarrow> 'a list" where
  "heapSort lt data a b =
     (let first = a;
          lo = 0;
          hi = b - a;
          data = foldl (\<lambda>data i. siftDown lt data i hi first) data (rev [0..<(hi - 1) div 2 + 1]);
          data = foldl (\<lambda>data i. siftDown lt (Swap data first (first + i)) lo i first) data
                   (rev [0..<hi])
      in data)"

text \<open>
  \<^verbatim>\<open>bits.Len\<close>: the number of bits of a number.  \<^verbatim>\<open>breakPatterns(data, a, b)\<close> swaps three
  elements around the middle with elements at pseudo-random places.  Its generator is a
  \<^verbatim>\<open>xorshift\<close> on 64 bits that starts from the length; the step \<^verbatim>\<open>Next\<close> of the generator
  (three shifts, each followed by an exclusive or) is the parameter \<open>Next\<close>, because the
  shift distances are not the same in every release.  \<^verbatim>\<open>nextPowerOfTwo(length)\<close> is
  \<^verbatim>\<open>1 << bits.Len(length)\<close>.
\<close>

function bits_Len :: "nat \<Rightarrow> nat" where
  "bits_Len n = (if n = 0 then 0 else bits_Len (n div 2) + 1)"
  by pat_completeness auto
termination
  by (relation "measure id") auto

declare bits_Len.simps [simp del]

definition breakPatterns ::
  "(64 word \<Rightarrow> 64 word) \<Rightarrow> 'a list \<Rightarrow> nat \<Rightarrow> nat \<Rightarrow> 'a list" where
  "breakPatterns Next data a b =
     (let len = b - a in
      if len \<ge> 8 then
        let random = (word_of_nat len :: 64 word);
            modulus = (push_bit (bits_Len len) 1 :: 64 word);
            idx = a + (len div 4) * 2 - 1
        in fst (foldl (\<lambda>(data, random) i.
                  let random = Next random;
                      other = unat (random AND (modulus - 1));
                      other = (if other \<ge> len then other - len else other)
                  in (Swap data (idx - 1 + i) (a + other), random))
                (data, random) [0..<3])
      else data)"

text \<open>
  \<^verbatim>\<open>choosePivot(data, a, b)\<close> with \<^verbatim>\<open>order2\<close>, \<^verbatim>\<open>median\<close> and \<^verbatim>\<open>medianAdjacent\<close>; the counter
  \<^verbatim>\<open>swaps\<close>, which the library passes by pointer, is passed in and returned.
\<close>

datatype sortedHint = unknownHint | increasingHint | decreasingHint

definition order2 ::
  "('a \<Rightarrow> 'a \<Rightarrow> bool) \<Rightarrow> 'a list \<Rightarrow> nat \<Rightarrow> nat \<Rightarrow> nat \<Rightarrow> nat \<times> nat \<times> nat" where
  "order2 lt data a b swaps =
     (if lt (data ! b) (data ! a) then (b, a, swaps + 1) else (a, b, swaps))"

definition median ::
  "('a \<Rightarrow> 'a \<Rightarrow> bool) \<Rightarrow> 'a list \<Rightarrow> nat \<Rightarrow> nat \<Rightarrow> nat \<Rightarrow> nat \<Rightarrow> nat \<times> nat" where
  "median lt data a b c swaps =
     (let (a, b, swaps) = order2 lt data a b swaps;
          (b, c, swaps) = order2 lt data b c swaps;
          (a, b, swaps) = order2 lt data a b swaps
      in (b, swaps))"

definition medianAdjacent ::
  "('a \<Rightarrow> 'a \<Rightarrow> bool) \<Rightarrow> 'a list \<Rightarrow> nat \<Rightarrow> nat \<Rightarrow> nat \<times> nat" where
  "medianAdjacent lt data a swaps = median lt data (a - 1) a (a + 1) swaps"

definition choosePivot ::
  "('a \<Rightarrow> 'a \<Rightarrow> bool) \<Rightarrow> 'a list \<Rightarrow> nat \<Rightarrow> nat \<Rightarrow> nat \<times> sortedHint" where
  "choosePivot lt data a b =
     (let l = b - a;
          swaps = 0;
          i = a + l div 4 * 1;
          j = a + l div 4 * 2;
          k = a + l div 4 * 3;
          (j, swaps) =
            (if l \<ge> 8 then
               let (i, j, k, swaps) =
                     (if l \<ge> 50 then
                        let (i, swaps) = medianAdjacent lt data i swaps;
                            (j, swaps) = medianAdjacent lt data j swaps;
                            (k, swaps) = medianAdjacent lt data k swaps
                        in (i, j, k, swaps)
                      else (i, j, k, swaps))
               in median lt data i j k swaps
             else (j, swaps))
      in if swaps = 0 then (j, increasingHint)
         else if swaps = 4 * 3 then (j, decreasingHint)
         else (j, unknownHint))"

text \<open>\<^verbatim>\<open>reverseRange(data, a, b)\<close>: the loop over \<^verbatim>\<open>i\<close> and \<^verbatim>\<open>j\<close>, from \<^verbatim>\<open>a\<close> and \<^verbatim>\<open>b - 1\<close>.\<close>

function reverseLoop :: "'a list \<Rightarrow> nat \<Rightarrow> nat \<Rightarrow> 'a list" where
  "reverseLoop data i j = (if i < j then reverseLoop (Swap data i j) (i + 1) (j - 1) else data)"
  by pat_completeness auto
termination
  by (relation "measure (\<lambda>(data, i, j). j - i)") auto

declare reverseLoop.simps [simp del]

definition reverseRange :: "'a list \<Rightarrow> nat \<Rightarrow> nat \<Rightarrow> 'a list" where
  "reverseRange data a b = reverseLoop data a (b - 1)"

text \<open>
  \<^verbatim>\<open>partialInsertionSort(data, a, b)\<close>: at most five rounds (\<^verbatim>\<open>maxSteps\<close>); a round walks \<^verbatim>\<open>i\<close>
  over the part in order (\<open>skipSorted\<close>), and on a slice of 50 elements or more
  (\<^verbatim>\<open>shortestShifting\<close>) swaps the pair out of order and shifts the smaller element to the
  left (\<open>shiftLeft\<close>, the loop \<^verbatim>\<open>for j := i - 1; j >= 1; j--\<close>) and the greater one to the right
  (\<open>shiftRight\<close>).  The result is the slice and whether it is sorted.
\<close>

function skipSorted :: "('a \<Rightarrow> 'a \<Rightarrow> bool) \<Rightarrow> 'a list \<Rightarrow> nat \<Rightarrow> nat \<Rightarrow> nat" where
  "skipSorted lt data i b =
     (if i < b \<and> \<not> lt (data ! i) (data ! (i - 1)) then skipSorted lt data (i + 1) b else i)"
  by pat_completeness auto
termination
  by (relation "measure (\<lambda>(lt, data, i, b). b - i)") auto

declare skipSorted.simps [simp del]

function shiftLeft :: "('a \<Rightarrow> 'a \<Rightarrow> bool) \<Rightarrow> 'a list \<Rightarrow> nat \<Rightarrow> 'a list" where
  "shiftLeft lt data j =
     (if j \<ge> 1 then
        (if \<not> lt (data ! j) (data ! (j - 1)) then data
         else shiftLeft lt (Swap data j (j - 1)) (j - 1))
      else data)"
  by pat_completeness auto
termination
  by (relation "measure (\<lambda>(lt, data, j). j)") auto

declare shiftLeft.simps [simp del]

function shiftRight :: "('a \<Rightarrow> 'a \<Rightarrow> bool) \<Rightarrow> 'a list \<Rightarrow> nat \<Rightarrow> nat \<Rightarrow> 'a list" where
  "shiftRight lt data j b =
     (if j < b then
        (if \<not> lt (data ! j) (data ! (j - 1)) then data
         else shiftRight lt (Swap data j (j - 1)) (j + 1) b)
      else data)"
  by pat_completeness auto
termination
  by (relation "measure (\<lambda>(lt, data, j, b). b - j)") auto

declare shiftRight.simps [simp del]

fun partialInsertionSortSteps ::
  "nat \<Rightarrow> ('a \<Rightarrow> 'a \<Rightarrow> bool) \<Rightarrow> 'a list \<Rightarrow> nat \<Rightarrow> nat \<Rightarrow> nat \<Rightarrow> 'a list \<times> bool" where
  "partialInsertionSortSteps 0 lt data a b i = (data, False)"
| "partialInsertionSortSteps (Suc steps) lt data a b i =
     (let i = skipSorted lt data i b in
      if i = b then (data, True)
      else if b - a < 50 then (data, False)
      else
        let data = Swap data i (i - 1);
            data = (if i - a \<ge> 2 then shiftLeft lt data (i - 1) else data);
            data = (if b - i \<ge> 2 then shiftRight lt data (i + 1) b else data)
        in partialInsertionSortSteps steps lt data a b i)"

definition partialInsertionSort ::
  "('a \<Rightarrow> 'a \<Rightarrow> bool) \<Rightarrow> 'a list \<Rightarrow> nat \<Rightarrow> nat \<Rightarrow> 'a list \<times> bool" where
  "partialInsertionSort lt data a b = partialInsertionSortSteps 5 lt data a b (a + 1)"

text \<open>
  \<^verbatim>\<open>partition(data, a, b, pivot)\<close>.  \<open>scanUp\<close> is \<^verbatim>\<open>for i <= j && data.Less(i, a) { i++ }\<close> and
  \<open>scanDown\<close> is \<^verbatim>\<open>for i <= j && !data.Less(j, a) { j-- }\<close>; \<open>partitionLoop\<close> is the loop that
  follows the first swap.  The library starts \<^verbatim>\<open>i\<close> at \<^verbatim>\<open>a + 1\<close>, so that \<^verbatim>\<open>j\<close> is positive
  whenever \<^verbatim>\<open>i <= j\<close>; \<open>scanDown\<close> says so in its test, since the indices here cannot go
  below 0.  The result is the slice, the place of the pivot and whether the slice was
  partitioned already.
\<close>

function scanUp :: "('a \<Rightarrow> 'a \<Rightarrow> bool) \<Rightarrow> 'a list \<Rightarrow> nat \<Rightarrow> nat \<Rightarrow> nat \<Rightarrow> nat" where
  "scanUp lt data a i j =
     (if i \<le> j \<and> lt (data ! i) (data ! a) then scanUp lt data a (i + 1) j else i)"
  by pat_completeness auto
termination
  by (relation "measure (\<lambda>(lt, data, a, i, j). j + 1 - i)") auto

declare scanUp.simps [simp del]

function scanDown :: "('a \<Rightarrow> 'a \<Rightarrow> bool) \<Rightarrow> 'a list \<Rightarrow> nat \<Rightarrow> nat \<Rightarrow> nat \<Rightarrow> nat" where
  "scanDown lt data a i j =
     (if i \<le> j \<and> 0 < j \<and> \<not> lt (data ! j) (data ! a) then scanDown lt data a i (j - 1) else j)"
  by pat_completeness auto
termination
  by (relation "measure (\<lambda>(lt, data, a, i, j). j)") auto

declare scanDown.simps [simp del]

lemma scanUp_ge: "i \<le> scanUp lt data a i j"
  by (induction lt data a i j rule: scanUp.induct) (subst scanUp.simps, auto)

lemma scanDown_le: "scanDown lt data a i j \<le> j"
  by (induction lt data a i j rule: scanDown.induct) (subst scanDown.simps, auto)

function partitionLoop ::
  "('a \<Rightarrow> 'a \<Rightarrow> bool) \<Rightarrow> 'a list \<Rightarrow> nat \<Rightarrow> nat \<Rightarrow> nat \<Rightarrow> 'a list \<times> nat" where
  "partitionLoop lt data a i j =
     (let i = scanUp lt data a i j;
          j = scanDown lt data a i j
      in if i > j then (data, j)
         else partitionLoop lt (Swap data i j) a (i + 1) (j - 1))"
  by pat_completeness auto
termination
proof (relation "measure (\<lambda>(lt, data, a, i, j). j + 1 - i)")
  show "wf (measure (\<lambda>(lt, data, a, i, j). j + 1 - i))" by simp
next
  fix lt :: "'a \<Rightarrow> 'a \<Rightarrow> bool" and data :: "'a list" and a i j x xa
  assume x: "x = scanUp lt data a i j" and xa: "xa = scanDown lt data a x j" and le: "\<not> xa < x"
  have "i \<le> x" unfolding x by (rule scanUp_ge)
  moreover have "xa \<le> j" unfolding xa by (rule scanDown_le)
  ultimately show "((lt, Swap data x xa, a, x + 1, xa - 1), lt, data, a, i, j)
      \<in> measure (\<lambda>(lt, data, a, i, j). j + 1 - i)"
    using le by simp
qed

declare partitionLoop.simps [simp del]

definition partition_sort ::
  "('a \<Rightarrow> 'a \<Rightarrow> bool) \<Rightarrow> 'a list \<Rightarrow> nat \<Rightarrow> nat \<Rightarrow> nat \<Rightarrow> 'a list \<times> nat \<times> bool" where
  "partition_sort lt data a b pivot =
     (let data = Swap data a pivot;
          i = a + 1;
          j = b - 1;
          i = scanUp lt data a i j;
          j = scanDown lt data a i j
      in if i > j then (Swap data j a, j, True)
         else
           let data = Swap data i j;
               (data, j) = partitionLoop lt data a (i + 1) (j - 1)
           in (Swap data j a, j, False))"

text \<open>
  \<^verbatim>\<open>partitionEqual(data, a, b, pivot)\<close>, for a slice without elements smaller than the pivot:
  the loops \<^verbatim>\<open>for i <= j && !data.Less(a, i) { i++ }\<close> and
  \<^verbatim>\<open>for i <= j && data.Less(a, j) { j-- }\<close>.  The result is the slice and \<^verbatim>\<open>i\<close>.
\<close>

function scanUpEqual :: "('a \<Rightarrow> 'a \<Rightarrow> bool) \<Rightarrow> 'a list \<Rightarrow> nat \<Rightarrow> nat \<Rightarrow> nat \<Rightarrow> nat" where
  "scanUpEqual lt data a i j =
     (if i \<le> j \<and> \<not> lt (data ! a) (data ! i) then scanUpEqual lt data a (i + 1) j else i)"
  by pat_completeness auto
termination
  by (relation "measure (\<lambda>(lt, data, a, i, j). j + 1 - i)") auto

declare scanUpEqual.simps [simp del]

function scanDownEqual :: "('a \<Rightarrow> 'a \<Rightarrow> bool) \<Rightarrow> 'a list \<Rightarrow> nat \<Rightarrow> nat \<Rightarrow> nat \<Rightarrow> nat" where
  "scanDownEqual lt data a i j =
     (if i \<le> j \<and> 0 < j \<and> lt (data ! a) (data ! j) then scanDownEqual lt data a i (j - 1) else j)"
  by pat_completeness auto
termination
  by (relation "measure (\<lambda>(lt, data, a, i, j). j)") auto

declare scanDownEqual.simps [simp del]

lemma scanUpEqual_ge: "i \<le> scanUpEqual lt data a i j"
  by (induction lt data a i j rule: scanUpEqual.induct) (subst scanUpEqual.simps, auto)

lemma scanDownEqual_le: "scanDownEqual lt data a i j \<le> j"
  by (induction lt data a i j rule: scanDownEqual.induct) (subst scanDownEqual.simps, auto)

function partitionEqualLoop ::
  "('a \<Rightarrow> 'a \<Rightarrow> bool) \<Rightarrow> 'a list \<Rightarrow> nat \<Rightarrow> nat \<Rightarrow> nat \<Rightarrow> 'a list \<times> nat" where
  "partitionEqualLoop lt data a i j =
     (let i = scanUpEqual lt data a i j;
          j = scanDownEqual lt data a i j
      in if i > j then (data, i)
         else partitionEqualLoop lt (Swap data i j) a (i + 1) (j - 1))"
  by pat_completeness auto
termination
proof (relation "measure (\<lambda>(lt, data, a, i, j). j + 1 - i)")
  show "wf (measure (\<lambda>(lt, data, a, i, j). j + 1 - i))" by simp
next
  fix lt :: "'a \<Rightarrow> 'a \<Rightarrow> bool" and data :: "'a list" and a i j x xa
  assume x: "x = scanUpEqual lt data a i j" and xa: "xa = scanDownEqual lt data a x j"
    and le: "\<not> xa < x"
  have "i \<le> x" unfolding x by (rule scanUpEqual_ge)
  moreover have "xa \<le> j" unfolding xa by (rule scanDownEqual_le)
  ultimately show "((lt, Swap data x xa, a, x + 1, xa - 1), lt, data, a, i, j)
      \<in> measure (\<lambda>(lt, data, a, i, j). j + 1 - i)"
    using le by simp
qed

declare partitionEqualLoop.simps [simp del]

definition partitionEqual ::
  "('a \<Rightarrow> 'a \<Rightarrow> bool) \<Rightarrow> 'a list \<Rightarrow> nat \<Rightarrow> nat \<Rightarrow> nat \<Rightarrow> 'a list \<times> nat" where
  "partitionEqual lt data a b pivot =
     (let data = Swap data a pivot;
          i = a + 1;
          j = b - 1
      in partitionEqualLoop lt data a i j)"

text \<open>
  Where the two partitions put the pivot: inside the slice, and for \<^verbatim>\<open>partitionEqual\<close> to the
  right of \<^verbatim>\<open>a\<close>.  With these bounds every round of \<^verbatim>\<open>pdqsort\<close> works on a shorter slice.
\<close>

lemma scanUp_le: "i \<le> j + 1 \<Longrightarrow> scanUp lt data a i j \<le> j + 1"
  by (induction lt data a i j rule: scanUp.induct) (subst scanUp.simps, auto)

lemma scanDown_ge: "i \<le> j + 1 \<Longrightarrow> i \<le> scanDown lt data a i j + 1"
  by (induction lt data a i j rule: scanDown.induct) (subst scanDown.simps, auto)

lemma partitionLoop_le: "snd (partitionLoop lt data a i j) \<le> j"
proof (induction lt data a i j rule: partitionLoop.induct)
  case (1 lt data a i j)
  let ?i = "scanUp lt data a i j"
  let ?j = "scanDown lt data a ?i j"
  have j: "?j \<le> j" by (rule scanDown_le)
  show ?case
  proof (cases "?i > ?j")
    case True
    then show ?thesis using j by (subst partitionLoop.simps) (simp add: Let_def)
  next
    case False
    then have "snd (partitionLoop lt (Swap data ?i ?j) a (?i + 1) (?j - 1)) \<le> ?j - 1"
      using 1 by simp
    then show ?thesis using j False by (subst partitionLoop.simps) (simp add: Let_def)
  qed
qed

lemma partitionLoop_ge: "i \<le> j + 2 \<Longrightarrow> i \<le> snd (partitionLoop lt data a i j) + 2"
proof (induction lt data a i j rule: partitionLoop.induct)
  case (1 lt data a i j)
  let ?i = "scanUp lt data a i j"
  let ?j = "scanDown lt data a ?i j"
  have i: "i \<le> ?i" by (rule scanUp_ge)
  show ?case
  proof (cases "?i > ?j")
    case True
    have "i \<le> ?j + 2"
    proof (cases "?i \<le> j + 1")
      case True
      then have "?i \<le> ?j + 1" by (rule scanDown_ge)
      then show ?thesis using i by simp
    next
      case False
      then have "?j = j" by (subst scanDown.simps) simp
      then show ?thesis using "1.prems" by simp
    qed
    then show ?thesis using True by (subst partitionLoop.simps) (simp add: Let_def)
  next
    case False
    then have "?i + 1 \<le> snd (partitionLoop lt (Swap data ?i ?j) a (?i + 1) (?j - 1)) + 2"
      using 1 by simp
    then show ?thesis using i False by (subst partitionLoop.simps) (simp add: Let_def)
  qed
qed

lemma partition_sort_bounds:
  assumes "a < b"
  shows "a \<le> fst (snd (partition_sort lt data a b pivot))"
    and "fst (snd (partition_sort lt data a b pivot)) < b"
proof -
  let ?d = "Swap data a pivot"
  let ?i = "scanUp lt ?d a (a + 1) (b - 1)"
  let ?j = "scanDown lt ?d a ?i (b - 1)"
  have i: "a + 1 \<le> ?i" by (rule scanUp_ge)
  have ib: "?i \<le> (b - 1) + 1" using assms by (intro scanUp_le) simp
  have jb: "?j \<le> b - 1" by (rule scanDown_le)
  have ij: "?i \<le> ?j + 1" using ib by (rule scanDown_ge)
  show "a \<le> fst (snd (partition_sort lt data a b pivot))"
  proof (cases "?i > ?j")
    case True
    then show ?thesis using i ij by (simp add: partition_sort_def Let_def)
  next
    case False
    then have "?i + 1 \<le> (?j - 1) + 2" by simp
    then have "?i + 1 \<le> snd (partitionLoop lt (Swap ?d ?i ?j) a (?i + 1) (?j - 1)) + 2"
      by (rule partitionLoop_ge)
    then show ?thesis using i False by (auto simp: partition_sort_def Let_def split: prod.splits)
  qed
  show "fst (snd (partition_sort lt data a b pivot)) < b"
  proof (cases "?i > ?j")
    case True
    then show ?thesis using jb assms by (simp add: partition_sort_def Let_def)
  next
    case False
    have "snd (partitionLoop lt (Swap ?d ?i ?j) a (?i + 1) (?j - 1)) \<le> ?j - 1"
      by (rule partitionLoop_le)
    then show ?thesis
      using jb assms False by (auto simp: partition_sort_def Let_def split: prod.splits)
  qed
qed

lemma partition_sort_bounds_pair:
  "(d, mid, ap) = partition_sort lt data a b pivot \<Longrightarrow> a < b \<Longrightarrow> a \<le> mid \<and> mid < b"
  using partition_sort_bounds [of a b lt data pivot]
  by (cases "partition_sort lt data a b pivot") auto

lemma partitionEqualLoop_ge: "i \<le> snd (partitionEqualLoop lt data a i j)"
proof (induction lt data a i j rule: partitionEqualLoop.induct)
  case (1 lt data a i j)
  let ?i = "scanUpEqual lt data a i j"
  let ?j = "scanDownEqual lt data a ?i j"
  have i: "i \<le> ?i" by (rule scanUpEqual_ge)
  show ?case
  proof (cases "?i > ?j")
    case True
    then show ?thesis using i by (subst partitionEqualLoop.simps) (simp add: Let_def)
  next
    case False
    then have "?i + 1 \<le> snd (partitionEqualLoop lt (Swap data ?i ?j) a (?i + 1) (?j - 1))"
      using 1 by simp
    then show ?thesis using i False by (subst partitionEqualLoop.simps) (simp add: Let_def)
  qed
qed

lemma partitionEqual_gt_pair: "(d, mid) = partitionEqual lt data a b pivot \<Longrightarrow> a < mid"
  using partitionEqualLoop_ge [of "a + 1" lt "Swap data a pivot" a "b - 1"]
  by (cases "partitionEqual lt data a b pivot") (simp add: partitionEqual_def)

text \<open>
  \<^verbatim>\<open>pdqsort(data, a, b, limit)\<close>.  Its loop keeps \<^verbatim>\<open>wasBalanced\<close> and \<^verbatim>\<open>wasPartitioned\<close> from
  round to round; here a round is a call, and the two flags are arguments that a fresh
  call receives as true.  After a partition the shorter side is sorted by a call of its
  own and the loop goes on with the other side.
\<close>

function pdqsort ::
  "(64 word \<Rightarrow> 64 word) \<Rightarrow> ('a \<Rightarrow> 'a \<Rightarrow> bool) \<Rightarrow> 'a list \<Rightarrow> nat \<Rightarrow> nat \<Rightarrow> nat \<Rightarrow> bool \<Rightarrow> bool
     \<Rightarrow> 'a list" where
  "pdqsort Next lt data a b limit wasBalanced wasPartitioned =
     (let len = b - a in
      if len \<le> 12 then insertionSort lt data a b
      else if limit = 0 then heapSort lt data a b
      else
        let (data, limit) =
              (if \<not> wasBalanced then (breakPatterns Next data a b, limit - 1) else (data, limit));
            (pivot, hint) = choosePivot lt data a b;
            (data, pivot, hint) =
              (if hint = decreasingHint
               then (reverseRange data a b, (b - 1) - (pivot - a), increasingHint)
               else (data, pivot, hint));
            (data, isSorted) =
              (if wasBalanced \<and> wasPartitioned \<and> hint = increasingHint
               then partialInsertionSort lt data a b else (data, False))
        in if isSorted then data
           else if a > 0 \<and> \<not> lt (data ! (a - 1)) (data ! pivot) then
             let (data, mid) = partitionEqual lt data a b pivot
             in pdqsort Next lt data mid b limit wasBalanced wasPartitioned
           else
             let (data, mid, alreadyPartitioned) = partition_sort lt data a b pivot;
                 wasPartitioned = alreadyPartitioned;
                 leftLen = mid - a;
                 rightLen = b - mid;
                 balanceThreshold = len div 8
             in if leftLen < rightLen then
                  let wasBalanced = (leftLen \<ge> balanceThreshold);
                      data = pdqsort Next lt data a mid limit True True
                  in pdqsort Next lt data (mid + 1) b limit wasBalanced wasPartitioned
                else
                  let wasBalanced = (rightLen \<ge> balanceThreshold);
                      data = pdqsort Next lt data (mid + 1) b limit True True
                  in pdqsort Next lt data a mid limit wasBalanced wasPartitioned)"
  by pat_completeness auto
termination
  apply (relation "measure (\<lambda>(Next, lt, data, a, b, limit, wasBalanced, wasPartitioned). b - a)")
      apply simp
     apply (auto dest!: partitionEqual_gt_pair)[1]
    apply (auto dest!: partition_sort_bounds_pair)
  done

declare pdqsort.simps [simp del]

text \<open>\<^verbatim>\<open>Sort(data)\<close>.\<close>

definition sort_Sort ::
  "(64 word \<Rightarrow> 64 word) \<Rightarrow> ('a \<Rightarrow> 'a \<Rightarrow> bool) \<Rightarrow> 'a list \<Rightarrow> 'a list" where
  "sort_Sort Next lt data =
     (let n = length data in
      if n \<le> 1 then data
      else let limit = bits_Len n in pdqsort Next lt data 0 n limit True True)"

text \<open>
  A generator for the invocations below: the xorshift on 64 bits with the shifts 13, 7
  and 17.
\<close>

definition xorshift64 :: "64 word \<Rightarrow> 64 word" where
  "xorshift64 r =
     (let r = r XOR push_bit 13 r;
          r = r XOR drop_bit 7 r;
          r = r XOR push_bit 17 r
      in r)"


section \<open>orgsMembersListCmd\<close>

text \<open>
  Modelled from the spec: \<^verbatim>\<open>ByTeamPrecedence\<close>, the slice type of line 910, has its \<^verbatim>\<open>Len\<close>,
  \<^verbatim>\<open>Less\<close> and \<^verbatim>\<open>Swap\<close> in another file of package cmd.  Section 4.4 of the specification: the
  teams are ordered by a precedence rank, and the ranking is a parameter.
  \<open>ByTeamPrecedence_Less\<close> compares the ranks of two teams of the slice; \<^verbatim>\<open>Len\<close> and \<^verbatim>\<open>Swap\<close>
  are those of a slice.
\<close>

definition ByTeamPrecedence_Less ::
  "(envelope_Team \<Rightarrow> nat) \<Rightarrow> envelope_Team \<Rightarrow> envelope_Team \<Rightarrow> bool" where
  "ByTeamPrecedence_Less rank a b \<longleftrightarrow> rank a < rank b"

text \<open>
  The value of \<^verbatim>\<open>tErr\<close> after the join (lines 797 to 818).  The teams task assigns the
  error of its call to \<^verbatim>\<open>tErr\<close>, tests \<^verbatim>\<open>tErr != nil\<close> and, when the test holds, wraps:
  \<^verbatim>\<open>tErr = errs.NewExitError("Could not retrieve list of teams.")\<close>.  The memberships task
  assigns \<^verbatim>\<open>mErr\<close> and, when \<^verbatim>\<open>mErr != nil\<close>, assigns \<^verbatim>\<open>tErr\<close> as well (line 813).  The two
  tasks run side by side; \<open>race\<close> says where the assignment of line 813 falls among the
  three steps of the teams task: before its assignment, before its test, before its
  wrapping assignment, or after it.
\<close>

definition orgsMembers_tErr :: "race \<Rightarrow> error option \<Rightarrow> error option \<Rightarrow> error option" where
  "orgsMembers_tErr r tCall mErr =
     (let wrapTeams = Some (ExitError ''Could not retrieve list of teams.'');
          wrapMemberships = Some (ExitError ''Could not retrieve list of memberships.'')
      in if mErr = None then (if tCall \<noteq> None then wrapTeams else tCall)
         else (case r of
                 BeforeAssign \<Rightarrow> (if tCall \<noteq> None then wrapTeams else tCall)
               | BeforeTest \<Rightarrow> wrapTeams
               | BeforeWrap \<Rightarrow> (if tCall \<noteq> None then wrapTeams else wrapMemberships)
               | AfterWrap \<Rightarrow> wrapMemberships))"

text \<open>
  The loop over the memberships (lines 856 to 879), with \<^verbatim>\<open>userTeamIdx\<close> and the keys of
  \<^verbatim>\<open>membershipUserIDs\<close>.  \<open>Inl\<close> is the panic of line 860.
\<close>

fun buildIdx ::
  "string \<Rightarrow> (ID \<rightharpoonup> envelope_Team) \<Rightarrow> envelope_Membership list
     \<Rightarrow> (ID \<rightharpoonup> ID list) \<times> ID list \<Rightarrow> string + ((ID \<rightharpoonup> ID list) \<times> ID list)" where
  "buildIdx mn teamsIdx [] (userTeamIdx, membershipUserIDs) = Inr (userTeamIdx, membershipUserIDs)"
| "buildIdx mn teamsIdx (membership # rest) (userTeamIdx, membershipUserIDs) =
     (case teamsIdx (TeamID membership) of
        None \<Rightarrow> Inl ''Attempted to access membership with no associated team.''
      | Some team \<Rightarrow>
          if isMachineTeam mn (team_Body team) then
            buildIdx mn teamsIdx rest (userTeamIdx, membershipUserIDs)
          else
            let membershipUserIDs = setKey (OwnerID membership) membershipUserIDs;
                userTeamIdx =
                  (case userTeamIdx (OwnerID membership) of
                     None \<Rightarrow> userTeamIdx(OwnerID membership \<mapsto> [])
                   | Some _ \<Rightarrow> userTeamIdx);
                userTeamIdx =
                  userTeamIdx(OwnerID membership \<mapsto>
                    (case userTeamIdx (OwnerID membership) of None \<Rightarrow> [] | Some ids \<Rightarrow> ids)
                      @ [TeamID membership])
            in buildIdx mn teamsIdx rest (userTeamIdx, membershipUserIDs))"

text \<open>
  The inner loop of lines 905 to 908: \<^verbatim>\<open>teamsIdx[teamID]\<close> for each team of the user.  A
  missing key would give Go's zero team, whose nil body the sort or line 915 dereferences.
\<close>

fun userTeamsOf :: "(ID \<rightharpoonup> envelope_Team) \<Rightarrow> ID list \<Rightarrow> string + envelope_Team list" where
  "userTeamsOf teamsIdx [] = Inr []"
| "userTeamsOf teamsIdx (teamID # ids) =
     (case teamsIdx teamID of
        None \<Rightarrow> Inl nilDereference
      | Some team \<Rightarrow>
          (case userTeamsOf teamsIdx ids of Inl p \<Rightarrow> Inl p | Inr teams \<Rightarrow> Inr (team # teams)))"

text \<open>
  The cells of the line of one user (lines 899 to 919), or the panic that ends the
  process: of \<^verbatim>\<open>session.Username()\<close> on a nil session, or of the slice expression
  \<^verbatim>\<open>teamString[:len(teamString)-2]\<close> on a string shorter than two bytes.
\<close>

definition orgsMembers_row ::
  "(64 word \<Rightarrow> 64 word) \<Rightarrow> (envelope_Team \<Rightarrow> nat) \<Rightarrow> api_Session option \<Rightarrow> (ID \<rightharpoonup> ID list)
     \<Rightarrow> (ID \<rightharpoonup> envelope_Team) \<Rightarrow> apitypes_Profile \<Rightarrow> string + string list" where
  "orgsMembers_row Next rank session userTeamIdx teamsIdx user =
     (case session of
        None \<Rightarrow> Inl nilDereference
      | Some s \<Rightarrow>
          let me = (if session_Username s = profile_Username user then FaintString ''*'' else [])
          in (case userTeamsOf teamsIdx
                     (case userTeamIdx (profile_ID user) of None \<Rightarrow> [] | Some ids \<Rightarrow> ids) of
                Inl p \<Rightarrow> Inl p
              | Inr userTeams \<Rightarrow>
                  let sortedTeams = sort_Sort Next (ByTeamPrecedence_Less rank) userTeams;
                      teamString = concat (map (\<lambda>t. Name (team_Body t) @ '', '') sortedTeams)
                  in if length teamString < 2 then Inl sliceBounds
                     else Inr [me, profile_Name user, FaintString (profile_Username user),
                               take (length teamString - 2) teamString]))"

text \<open>The loop over the users (lines 898 to 920).\<close>

fun orgsMembers_rows ::
  "(64 word \<Rightarrow> 64 word) \<Rightarrow> (envelope_Team \<Rightarrow> nat) \<Rightarrow> api_Session option \<Rightarrow> (ID \<rightharpoonup> ID list)
     \<Rightarrow> (ID \<rightharpoonup> envelope_Team) \<Rightarrow> apitypes_Profile list \<Rightarrow> string + string list list" where
  "orgsMembers_rows Next rank session userTeamIdx teamsIdx [] = Inr []"
| "orgsMembers_rows Next rank session userTeamIdx teamsIdx (user # users) =
     (case orgsMembers_row Next rank session userTeamIdx teamsIdx user of
        Inl p \<Rightarrow> Inl p
      | Inr row \<Rightarrow>
          (case orgsMembers_rows Next rank session userTeamIdx teamsIdx users of
             Inl p \<Rightarrow> Inl p
           | Inr rows \<Rightarrow> Inr (row # rows)))"

text \<open>
  The command.  The session task (lines 820 to 829) assigns the error of
  \<^verbatim>\<open>client.Session.Who\<close> to the variable \<^verbatim>\<open>err\<close> of the command and then tests \<^verbatim>\<open>sErr\<close>,
  which nothing has assigned.
\<close>

definition orgsMembersListCmd :: "env \<Rightarrow> run" where
  "orgsMembersListCmd env =
     (case LoadConfig env of Some err \<Rightarrow> failWith (ExitError ''Failed to load config.'') | None \<Rightarrow>
     (case selectOrg env of Inl err \<Rightarrow> failWith err | Inr org \<Rightarrow>
      let got = Teams_List env (org_ID org);
          teams = listOf got;
          listed = Memberships_List env (org_ID org) None None;
          memberships = listOf listed;
          mErr = errOf listed;
          tErr = orgsMembers_tErr (tErrRace env) (errOf got) mErr;
          sErr = (None :: error option);
          who = Session_Who env;
          session = ptrOf who;
          err = errOf who;
          sErr = (if sErr \<noteq> None then Some (ExitError ''Failed to get current session.'') else sErr)
      in if tErr \<noteq> None \<or> mErr \<noteq> None \<or> sErr \<noteq> None then
           failWith (MultiError [tErr, mErr, sErr])
         else if length memberships = 0 then
           failWith (ExitError (org_Name org @ '' has no members.''))
         else
           let teamsIdx = foldl (\<lambda>idx team. idx(team_ID team \<mapsto> team)) Map.empty teams
           in (case buildIdx (MachineTeamName env) teamsIdx memberships (Map.empty, []) of
                 Inl p \<Rightarrow> \<lparr>ret = Panicked p, stdout = [], profileRequests = []\<rparr>
               | Inr (userTeamIdx, membershipUserIDs) \<Rightarrow>
                   let userIDs = rangeOrder env membershipUserIDs
                   in (case Profiles_ListByID env userIDs of
                         Inl err \<Rightarrow>
                           \<lparr>ret = Returned (Some (ExitError ''Could not list teams.'')),
                            stdout = [], profileRequests = [userIDs]\<rparr>
                       | Inr None \<Rightarrow>
                           \<lparr>ret = Returned (Some (ExitError ''User not found.'')),
                            stdout = [], profileRequests = [userIDs]\<rparr>
                       | Inr (Some users) \<Rightarrow>
                           (case orgsMembers_rows (xorshift_Next env) (precedence env) session userTeamIdx teamsIdx users of
                              Inl p \<Rightarrow>
                                \<lparr>ret = Panicked p, stdout = [Text []],
                                 profileRequests = [userIDs]\<rparr>
                            | Inr rows \<Rightarrow>
                                \<lparr>ret = Returned None,
                                 stdout = [Text []] @
                                   map Cells ([[], BoldString ''Name'', BoldString ''Username'',
                                               BoldString ''Team''] # rows) @
                                   [Text [],
                                    Text (''Org '' @ org_Name org @ '' has (''
                                          @ FaintString (Itoa (length userIDs)) @ '') member''
                                          @ plural (length userIDs))],
                                 profileRequests = [userIDs]\<rparr>)))))"

section \<open>Reading a run\<close>

text \<open>The lines of the tab writer among the lines printed.\<close>

fun cellsOf :: "line list \<Rightarrow> string list list" where
  "cellsOf [] = []"
| "cellsOf (Text s # ls) = cellsOf ls"
| "cellsOf (Cells c # ls) = c # cellsOf ls"

text \<open>The data rows of the table: the lines of the tab writer after the header line.\<close>

definition dataRows :: "run \<Rightarrow> string list list" where
  "dataRows r = tl (cellsOf (stdout r))"

text \<open>A row is annotated when its first cell, the marker column, is not empty.\<close>

definition annotated :: "string list \<Rightarrow> bool" where
  "annotated row = (case row of [] \<Rightarrow> False | mark # cells \<Rightarrow> mark \<noteq> [])"

section \<open>The tasks of teamsListCmd, step by step\<close>

text \<open>
  Lines 110 to 143 start three goroutines and wait for them.  Here they run as an
  interleaving of steps on one shared state, a step being what a task does between two
  points where another task can observe it: a remote call with the assignment of its
  results, a \<^verbatim>\<open>Done()\<close>, a \<^verbatim>\<open>Wait()\<close> (enabled only when the counter is zero), the test of
  \<^verbatim>\<open>sErr\<close> with the call it guards, and the loop that fills \<^verbatim>\<open>memberOf\<close>.  A remote call
  returns what the collaborators say; it is one step.

  The program counters:
  \<^item> session task: 0 before \<^verbatim>\<open>client.Session.Who\<close>, 1 before \<^verbatim>\<open>getMemberships.Done()\<close>,
    2 finished;
  \<^item> teams task: 0 before \<^verbatim>\<open>client.Teams.GetByOrg\<close>, 1 before \<^verbatim>\<open>display.Done()\<close>,
    2 finished;
  \<^item> memberships task: 0 at \<^verbatim>\<open>getMemberships.Wait()\<close>, 1 at \<^verbatim>\<open>if sErr == nil\<close>, 2 at the
    loop over the memberships, 3 before \<^verbatim>\<open>display.Done()\<close>, 4 finished;
  \<^item> the command itself: 0 at \<^verbatim>\<open>display.Wait()\<close>, 1 past it.
\<close>

datatype task = SessionTask | TeamsTask | MembershipsTask | MainTask

datatype call = CallWho | CallGetByOrg | CallMembershipsList

record tasks =
  pcSession :: nat
  pcTeams :: nat
  pcMemberships :: nat
  pcMain :: nat
  getMemberships :: int
  display :: int
  v_session :: "api_Session option"
  v_sErr :: "error option"
  v_tErr :: "error option"
  v_teams :: "envelope_Team list"
  v_memberships :: "envelope_Membership list"
  v_memberOf :: "ID \<rightharpoonup> bool"
  calls :: "call list"
  signals :: "task list"
  crashed :: bool

text \<open>
  The state after lines 110 to 118: \<^verbatim>\<open>getMemberships.Add(1)\<close>, \<^verbatim>\<open>display.Add(2)\<close>, the
  variables at their zero values, an empty \<^verbatim>\<open>memberOf\<close>.
\<close>

definition initTasks :: tasks where
  "initTasks =
     \<lparr>pcSession = 0, pcTeams = 0, pcMemberships = 0, pcMain = 0,
      getMemberships = 1, display = 2,
      v_session = None, v_sErr = None, v_tErr = None, v_teams = [], v_memberships = [],
      v_memberOf = Map.empty, calls = [], signals = [], crashed = False\<rparr>"

text \<open>
  \<^verbatim>\<open>Done()\<close> of a wait group by task \<open>t\<close>: the counter goes down by one, and a counter that
  would become negative is a panic of the process.
\<close>

definition Done_getMemberships :: "task \<Rightarrow> tasks \<Rightarrow> tasks" where
  "Done_getMemberships t s =
     (if getMemberships s - 1 < 0 then s\<lparr>crashed := True\<rparr>
      else s\<lparr>getMemberships := getMemberships s - 1, signals := signals s @ [t]\<rparr>)"

definition Done_display :: "task \<Rightarrow> tasks \<Rightarrow> tasks" where
  "Done_display t s =
     (if display s - 1 < 0 then s\<lparr>crashed := True\<rparr>
      else s\<lparr>display := display s - 1, signals := signals s @ [t]\<rparr>)"

text \<open>
  One step of task \<open>t\<close>, or \<open>None\<close> when \<open>t\<close> cannot move: it has finished, it waits on a
  counter that is not zero, or the process has panicked.
\<close>

definition step :: "env \<Rightarrow> envelope_Org \<Rightarrow> task \<Rightarrow> tasks \<Rightarrow> tasks option" where
  "step env org t s =
     (if crashed s then None
      else case t of
        SessionTask \<Rightarrow>
          if pcSession s = 0 then
            Some (s\<lparr>v_session := ptrOf (Session_Who env), v_sErr := errOf (Session_Who env),
                    calls := calls s @ [CallWho], pcSession := 1\<rparr>)
          else if pcSession s = 1 then
            Some ((Done_getMemberships SessionTask s)\<lparr>pcSession := 2\<rparr>)
          else None
      | TeamsTask \<Rightarrow>
          if pcTeams s = 0 then
            Some (s\<lparr>v_teams := listOf (Teams_GetByOrg env (org_ID org)),
                    v_tErr := errOf (Teams_GetByOrg env (org_ID org)),
                    calls := calls s @ [CallGetByOrg], pcTeams := 1\<rparr>)
          else if pcTeams s = 1 then
            Some ((Done_display TeamsTask s)\<lparr>pcTeams := 2\<rparr>)
          else None
      | MembershipsTask \<Rightarrow>
          if pcMemberships s = 0 then
            (if getMemberships s = 0 then Some (s\<lparr>pcMemberships := 1\<rparr>) else None)
          else if pcMemberships s = 1 then
            (if v_sErr s = None then
               (case v_session s of
                  None \<Rightarrow> Some (s\<lparr>crashed := True\<rparr>)
                | Some session \<Rightarrow>
                    let listed = Memberships_List env (org_ID org) None (Some (session_ID session))
                    in Some (s\<lparr>v_memberships := listOf listed, v_sErr := errOf listed,
                               calls := calls s @ [CallMembershipsList], pcMemberships := 2\<rparr>))
             else Some (s\<lparr>pcMemberships := 2\<rparr>))
          else if pcMemberships s = 2 then
            Some (s\<lparr>v_memberOf := markMemberOf (v_memberships s) (v_memberOf s),
                    pcMemberships := 3\<rparr>)
          else if pcMemberships s = 3 then
            Some ((Done_display MembershipsTask s)\<lparr>pcMemberships := 4\<rparr>)
          else None
      | MainTask \<Rightarrow>
          if pcMain s = 0 \<and> display s = 0 then Some (s\<lparr>pcMain := 1\<rparr>) else None)"

text \<open>
  A schedule names the task that is given the processor, turn after turn; a task that
  cannot move when it is named leaves the state as it is.  The states that the schedules
  reach from \<open>initTasks\<close> are the states of all interleavings.
\<close>

fun runTasks :: "env \<Rightarrow> envelope_Org \<Rightarrow> task list \<Rightarrow> tasks \<Rightarrow> tasks" where
  "runTasks env org [] s = s"
| "runTasks env org (t # sched) s =
     runTasks env org sched (case step env org t s of None \<Rightarrow> s | Some s' \<Rightarrow> s')"

text \<open>The number of steps that the four tasks still have before them.\<close>

definition remaining :: "tasks \<Rightarrow> nat" where
  "remaining s =
     (2 - pcSession s) + (2 - pcTeams s) + (4 - pcMemberships s) + (1 - pcMain s)"

text \<open>
  What holds in every state of every interleaving: the counters of the wait groups and
  the signals sent follow from the program counters, the memberships task is past its
  wait only after the session task has finished, and the variables hold what the tasks
  that have run assigned.
\<close>

definition tasksInv :: "env \<Rightarrow> envelope_Org \<Rightarrow> tasks \<Rightarrow> bool" where
  "tasksInv env org s \<longleftrightarrow>
     \<not> crashed s
     \<and> pcSession s \<le> 2 \<and> pcTeams s \<le> 2 \<and> pcMemberships s \<le> 4 \<and> pcMain s \<le> 1
     \<and> getMemberships s = (if pcSession s = 2 then 0 else 1)
     \<and> display s = (if pcTeams s = 2 then 0 else 1) + (if pcMemberships s = 4 then 0 else 1)
     \<and> mset (signals s) =
         (if pcSession s = 2 then {#SessionTask#} else {#})
         + (if pcTeams s = 2 then {#TeamsTask#} else {#})
         + (if pcMemberships s = 4 then {#MembershipsTask#} else {#})
     \<and> (1 \<le> pcMemberships s \<longrightarrow> pcSession s = 2)
     \<and> (pcMain s = 1 \<longrightarrow> pcTeams s = 2 \<and> pcMemberships s = 4)
     \<and> (1 \<le> pcSession s \<and> pcMemberships s \<le> 1 \<longrightarrow>
          v_sErr s = errOf (Session_Who env) \<and> v_session s = ptrOf (Session_Who env))
     \<and> (pcMemberships s \<le> 1 \<longrightarrow>
          CallMembershipsList \<notin> set (calls s) \<and> v_memberships s = [])
     \<and> (pcMemberships s \<le> 2 \<longrightarrow> v_memberOf s = Map.empty)
     \<and> (2 \<le> pcMemberships s \<longrightarrow>
          (case Session_Who env of
             Inl e \<Rightarrow>
               v_sErr s = Some e \<and> v_memberships s = [] \<and> CallMembershipsList \<notin> set (calls s)
           | Inr session \<Rightarrow>
               v_sErr s = errOf (Memberships_List env (org_ID org) None (Some (session_ID session)))
               \<and> v_memberships s =
                   listOf (Memberships_List env (org_ID org) None (Some (session_ID session)))))
     \<and> (3 \<le> pcMemberships s \<longrightarrow> v_memberOf s = markMemberOf (v_memberships s) Map.empty)
     \<and> (1 \<le> pcTeams s \<longrightarrow>
          v_tErr s = errOf (Teams_GetByOrg env (org_ID org))
          \<and> v_teams s = listOf (Teams_GetByOrg env (org_ID org)))"

section \<open>Invocations used as examples\<close>

definition teamAdmin :: envelope_Team where
  "teamAdmin = \<lparr>team_ID = 10, team_Body = \<lparr>Name = ''admin'', TeamType = UserTeamType\<rparr>\<rparr>"

definition teamDevs :: envelope_Team where
  "teamDevs = \<lparr>team_ID = 11, team_Body = \<lparr>Name = ''devs'', TeamType = UserTeamType\<rparr>\<rparr>"

definition teamRobots :: envelope_Team where
  "teamRobots = \<lparr>team_ID = 12, team_Body = \<lparr>Name = ''robots'', TeamType = MachineTeamType\<rparr>\<rparr>"

definition annInAdmin :: envelope_Membership where
  "annInAdmin = \<lparr>membership_ID = 100, OwnerID = 1, TeamID = 10\<rparr>"

definition annInDevs :: envelope_Membership where
  "annInDevs = \<lparr>membership_ID = 101, OwnerID = 1, TeamID = 11\<rparr>"

definition botInRobots :: envelope_Membership where
  "botInRobots = \<lparr>membership_ID = 102, OwnerID = 2, TeamID = 12\<rparr>"

definition annProfile :: apitypes_Profile where
  "annProfile = \<lparr>profile_ID = 1, profile_Name = ''Ann'', profile_Username = ''ann''\<rparr>"

definition acme :: envelope_Org where
  "acme = \<lparr>org_ID = 7, org_Name = ''acme''\<rparr>"

text \<open>
  An org with the teams admin (a user team) and robots (a machine team); Ann is in admin,
  a machine in robots; every call succeeds; the session is Ann's; the profile service
  knows Ann and answers with the profiles of the identifiers it is asked for.
\<close>

definition acmeEnv :: env where
  "acmeEnv =
     \<lparr>MachineTeamName = ''machine'',
      precedence = (\<lambda>t. 0),
      rangeOrder = (\<lambda>ks. ks),
      xorshift_Next = xorshift64,
      tErrRace = AfterWrap,
      argCheck = None,
      LoadConfig = None,
      selectOrg = Inr acme,
      selectTeam = Inr teamAdmin,
      Session_Who = Inr \<lparr>session_ID = 1, session_Username = ''ann''\<rparr>,
      Teams_GetByOrg = (\<lambda>orgID. Inr [teamAdmin, teamRobots]),
      Teams_List = (\<lambda>orgID. Inr [teamAdmin, teamRobots]),
      Memberships_List = (\<lambda>orgID teamID userID. Inr [annInAdmin, botInRobots]),
      Profiles_ListByID = (\<lambda>ids. Inr (Some (filter (\<lambda>p. profile_ID p \<in> set ids) [annProfile]))),
      Orgs_List = Inr [acme]\<rparr>"

text \<open>The same org when \<^verbatim>\<open>client.Session.Who\<close> fails.\<close>

definition sessionDownEnv :: env where
  "sessionDownEnv = acmeEnv\<lparr>Session_Who := Inl (RemoteError ''session expired'')\<rparr>"

text \<open>The session call fails and the only membership of the org is the machine's.\<close>

definition machinesOnlyEnv :: env where
  "machinesOnlyEnv =
     sessionDownEnv\<lparr>Memberships_List := (\<lambda>orgID teamID userID. Inr [botInRobots])\<rparr>"





text \<open>No team and no org has a member.\<close>

definition noMembersEnv :: env where
  "noMembersEnv = acmeEnv\<lparr>Memberships_List := (\<lambda>orgID teamID userID. Inr [])\<rparr>"

text \<open>A membership of a team with identifier 99, which the list of teams does not have.\<close>

definition danglingMembership :: envelope_Membership where
  "danglingMembership = \<lparr>membership_ID = 103, OwnerID = 3, TeamID = 99\<rparr>"

definition danglingEnv :: env where
  "danglingEnv =
     acmeEnv\<lparr>Memberships_List := (\<lambda>orgID teamID userID. Inr [annInAdmin, danglingMembership])\<rparr>"

text \<open>The org has the user teams admin and devs, and Ann is a member of both.\<close>

definition twoTeamsEnv :: env where
  "twoTeamsEnv =
     acmeEnv\<lparr>Teams_GetByOrg := (\<lambda>orgID. Inr [teamAdmin, teamDevs]),
              Memberships_List := (\<lambda>orgID teamID userID. Inr [annInAdmin, annInDevs])\<rparr>"





text \<open>
  A schedule of the tasks of teamsListCmd in which the memberships task and the command
  are named while they still have to wait.
\<close>

definition impatientSchedule :: "task list" where
  "impatientSchedule =
     [MembershipsTask, MainTask, SessionTask, TeamsTask, MembershipsTask, SessionTask,
      MembershipsTask, MembershipsTask, TeamsTask, MainTask, MembershipsTask,
      MembershipsTask, MainTask]"

section \<open>Properties\<close>

lemma visibleTeams_filter:
  "visibleTeams mn ts = filter (\<lambda>t. \<not> isMachineTeam mn (team_Body t)) ts"
  by (induction ts) simp_all

text \<open>
  Claim C6.  \<^verbatim>\<open>isMachineTeam\<close> is true exactly for a team of type Machine and for a team of
  type System that carries the reserved machine-team name.  The six combinations of the
  three types with a name that is, or is not, the reserved one are listed one by one.
\<close>

theorem isMachineTeam_iff:
  "(isMachineTeam mn team \<longleftrightarrow>
      TeamType team = MachineTeamType \<or> (TeamType team = SystemTeamType \<and> Name team = mn))
   \<and> isMachineTeam mn \<lparr>Name = mn, TeamType = MachineTeamType\<rparr>
   \<and> isMachineTeam mn \<lparr>Name = n, TeamType = MachineTeamType\<rparr>
   \<and> isMachineTeam mn \<lparr>Name = mn, TeamType = SystemTeamType\<rparr>
   \<and> (isMachineTeam mn \<lparr>Name = n, TeamType = SystemTeamType\<rparr> \<longleftrightarrow> n = mn)
   \<and> \<not> isMachineTeam mn \<lparr>Name = mn, TeamType = UserTeamType\<rparr>
   \<and> \<not> isMachineTeam mn \<lparr>Name = n, TeamType = UserTeamType\<rparr>"
  by (simp add: isMachineTeam_def)

subsection \<open>The exclusion of machine teams\<close>

lemma teamsList_loop_visible:
  "teamsList_loop mn memberOf ts (n, w) =
     (n + length (visibleTeams mn ts), w @ map (teamRow memberOf) (visibleTeams mn ts))"
  by (induction ts arbitrary: n w) simp_all

text \<open>
  Claim C9.  The exclusion of machine teams is idempotent: the teams that reach the body of
  the loop of teamsListCmd are the teams that are not machine teams, filtering them a second
  time changes nothing, and the loop writes the same lines and counts the same number of
  teams on the filtered list as on the list it was given.
\<close>

theorem machine_filter_idempotent:
  "visibleTeams mn ts = filter (\<lambda>t. \<not> isMachineTeam mn (team_Body t)) ts
   \<and> visibleTeams mn (visibleTeams mn ts) = visibleTeams mn ts
   \<and> filter (\<lambda>t. \<not> isMachineTeam mn (team_Body t))
        (filter (\<lambda>t. \<not> isMachineTeam mn (team_Body t)) ts)
       = filter (\<lambda>t. \<not> isMachineTeam mn (team_Body t)) ts
   \<and> teamsList_loop mn memberOf (visibleTeams mn ts) acc = teamsList_loop mn memberOf ts acc"
proof -
  have idem: "visibleTeams mn (visibleTeams mn ts) = visibleTeams mn ts"
    by (simp add: visibleTeams_filter)
  obtain n w where acc: "acc = (n, w)" by (cases acc)
  show ?thesis
    by (simp add: idem acc teamsList_loop_visible) (simp add: visibleTeams_filter)
qed

subsection \<open>A view without memberships\<close>

text \<open>
  Claim C10.  When every call succeeds and the list of memberships is empty,
  teamMembersListCmd prints that the team has no members, asks for no profile and returns
  nil, while orgsMembersListCmd returns an error that says that the org has no members.
\<close>

theorem empty_memberships_views:
  assumes "argCheck env = None" and "LoadConfig env = None"
    and "selectOrg env = Inr org" and "selectTeam env = Inr team"
    and "Session_Who env = Inr session"
    and "Memberships_List env (org_ID org) (Some (team_ID team)) None = Inr []"
    and "Teams_List env (org_ID org) = Inr teams"
    and "Memberships_List env (org_ID org) None None = Inr []"
  shows "teamMembersListCmd env =
           \<lparr>ret = Returned None,
            stdout = [Text (Name (team_Body team) @ '' has no members'')],
            profileRequests = []\<rparr>
         \<and> orgsMembersListCmd env = failWith (ExitError (org_Name org @ '' has no members.''))"
  using assms
  by (simp add: teamMembersListCmd_def orgsMembersListCmd_def errOf_def listOf_def ptrOf_def
      orgsMembers_tErr_def)

theorem empty_memberships_views_witness:
  "teamMembersListCmd noMembersEnv =
     \<lparr>ret = Returned None, stdout = [Text ''admin has no members''], profileRequests = []\<rparr>
   \<and> orgsMembersListCmd noMembersEnv =
       \<lparr>ret = Returned (Some (ExitError ''acme has no members.'')), stdout = [],
        profileRequests = []\<rparr>"
  using empty_memberships_views [of noMembersEnv acme teamAdmin
      "\<lparr>session_ID = 1, session_Username = ''ann''\<rparr>" "[teamAdmin, teamRobots]"]
  by (simp add: noMembersEnv_def acmeEnv_def acme_def teamAdmin_def failWith_def)

subsection \<open>The order of the teams of a user\<close>


















subsection \<open>A membership of a team that is not in the list of teams\<close>

lemma teamsIdx_lookup_None:
  "foldl (\<lambda>idx team. idx(team_ID team \<mapsto> team)) idx0 teams k = None
   \<longleftrightarrow> idx0 k = None \<and> k \<notin> team_ID ` set teams"
  by (induction teams arbitrary: idx0) auto

lemma buildIdx_dangling:
  "m \<in> set ms \<Longrightarrow> teamsIdx (TeamID m) = None \<Longrightarrow>
   buildIdx mn teamsIdx ms acc = Inl ''Attempted to access membership with no associated team.''"
proof (induction ms arbitrary: acc)
  case Nil
  then show ?case by simp
next
  case (Cons a ms)
  obtain userTeamIdx membershipUserIDs where acc: "acc = (userTeamIdx, membershipUserIDs)"
    by (cases acc)
  show ?case
  proof (cases "teamsIdx (TeamID a)")
    case None
    then show ?thesis by (simp add: acc)
  next
    case (Some team)
    with Cons.prems have "m \<in> set ms" by auto
    then show ?thesis
      using Cons.IH Cons.prems(2) Some by (simp add: acc Let_def)
  qed
qed

text \<open>
  Claim C3, as the code has it.  When the calls of orgsMembersListCmd succeed and a
  membership names a team that the list of teams does not have, the command does not
  return an error: it panics with the message of line 860, before it has printed a line
  or asked for a profile, and the process ends.
\<close>

theorem dangling_membership_panics:
  assumes "LoadConfig env = None" and "selectOrg env = Inr org"
    and "Session_Who env = Inr session"
    and "Teams_List env (org_ID org) = Inr teams"
    and "Memberships_List env (org_ID org) None None = Inr memberships"
    and "m \<in> set memberships" and "TeamID m \<notin> team_ID ` set teams"
  shows "orgsMembersListCmd env =
           \<lparr>ret = Panicked ''Attempted to access membership with no associated team.'',
            stdout = [], profileRequests = []\<rparr>"
proof -
  let ?idx = "foldl (\<lambda>idx team. idx(team_ID team \<mapsto> team)) Map.empty teams"
  have "?idx (TeamID m) = None"
    using assms(7) by (simp add: teamsIdx_lookup_None)
  then have "buildIdx (MachineTeamName env) ?idx memberships (Map.empty, []) =
      Inl ''Attempted to access membership with no associated team.''"
    using assms(6) by (rule buildIdx_dangling [rotated])
  moreover have "memberships \<noteq> []" using assms(6) by auto
  ultimately show ?thesis
    using assms(1-5)
    by (simp add: orgsMembersListCmd_def errOf_def listOf_def ptrOf_def orgsMembers_tErr_def)
qed

theorem dangling_membership_panics_witness:
  "danglingMembership \<in> set [annInAdmin, danglingMembership]
   \<and> TeamID danglingMembership \<notin> team_ID ` set [teamAdmin, teamRobots]
   \<and> orgsMembersListCmd danglingEnv =
       \<lparr>ret = Panicked ''Attempted to access membership with no associated team.'',
        stdout = [], profileRequests = []\<rparr>"
  using dangling_membership_panics [of danglingEnv acme
      "\<lparr>session_ID = 1, session_Username = ''ann''\<rparr>" "[teamAdmin, teamRobots]"
      "[annInAdmin, danglingMembership]" danglingMembership]
  by (simp add: danglingEnv_def acmeEnv_def danglingMembership_def teamAdmin_def teamRobots_def)

text \<open>
  The claim as the specification words it fails on this invocation: what comes back is
  not an error value but a panic.
\<close>

theorem dangling_membership_counterexample:
  "ret (orgsMembersListCmd danglingEnv) =
     Panicked ''Attempted to access membership with no associated team.''"
  by (simp add: orgsMembersListCmd_def danglingEnv_def acmeEnv_def acme_def errOf_def listOf_def
      orgsMembers_tErr_def annInAdmin_def danglingMembership_def teamAdmin_def teamRobots_def
      isMachineTeam_def setKey_def Let_def)

subsection \<open>The members of an org\<close>

lemma rangeOrder_single: "mset ks = mset [k] \<Longrightarrow> ks = [k]"
  by (metis mset_single_iff_right mset.simps(1) mset.simps(2) mset_single_iff)

lemma orgsMembers_row_single:
  assumes "teamsIdx tid = Some A" and "userTeamIdx (profile_ID p) = Some [tid]"
  shows "orgsMembers_rows Next rank (Some session) userTeamIdx teamsIdx [p] =
         Inr [[if session_Username session = profile_Username p then FaintString ''*'' else [],
               profile_Name p, FaintString (profile_Username p), Name (team_Body A)]]"
  using assms by (simp add: orgsMembers_row_def sort_Sort_def Let_def)

lemma orgsMembersListCmd_rendered:
  assumes "LoadConfig env = None" and "selectOrg env = Inr org"
    and "Teams_List env (org_ID org) = Inr teams"
    and "Memberships_List env (org_ID org) None None = Inr memberships"
    and "memberships \<noteq> []"
    and "teamsIdx = foldl (\<lambda>idx team. idx(team_ID team \<mapsto> team)) Map.empty teams"
    and "buildIdx (MachineTeamName env) teamsIdx memberships (Map.empty, []) =
           Inr (userTeamIdx, membershipUserIDs)"
    and "userIDs = rangeOrder env membershipUserIDs"
    and "Profiles_ListByID env userIDs = Inr (Some users)"
    and "orgsMembers_rows (xorshift_Next env) (precedence env) (ptrOf (Session_Who env)) userTeamIdx teamsIdx users =
           Inr rows"
  shows "orgsMembersListCmd env =
      \<lparr>ret = Returned None,
       stdout = [Text []] @
         map Cells ([[], BoldString ''Name'', BoldString ''Username'', BoldString ''Team''] # rows) @
         [Text [], Text (''Org '' @ org_Name org @ '' has ('' @ FaintString (Itoa (length userIDs))
                         @ '') member'' @ plural (length userIDs))],
       profileRequests = [userIDs]\<rparr>"
  unfolding orgsMembersListCmd_def Let_def
  using assms
  by (simp add: errOf_def listOf_def orgsMembers_tErr_def)

text \<open>
  Claim C8.  The teams of the org are A and B, B a machine team and A not; one membership
  puts user U1 in A, the other puts user U2 in B; the calls succeed and the profile service
  answers a request for U1 with the profile of U1.  Then the one request for profiles that
  orgsMembersListCmd makes asks for U1 and nothing else, and the table has one data row,
  the row of U1 with the name of team A.
\<close>

theorem machine_only_member_is_left_out:
  assumes cfg: "LoadConfig env = None" and org: "selectOrg env = Inr org"
    and who: "Session_Who env = Inr session"
    and teams: "Teams_List env (org_ID org) = Inr [A, B]"
    and ms: "Memberships_List env (org_ID org) None None = Inr memberships"
    and order: "memberships = [m1, m2] \<or> memberships = [m2, m1]"
    and m1: "OwnerID m1 = U1" "TeamID m1 = team_ID A"
    and m2: "OwnerID m2 = U2" "TeamID m2 = team_ID B"
    and ids: "team_ID A \<noteq> team_ID B"
    and A: "\<not> isMachineTeam (MachineTeamName env) (team_Body A)"
    and B: "isMachineTeam (MachineTeamName env) (team_Body B)"
    and range: "mset (rangeOrder env [U1]) = mset [U1]"
    and profiles: "Profiles_ListByID env [U1] = Inr (Some [p])" and p: "profile_ID p = U1"
  shows "profileRequests (orgsMembersListCmd env) = [[U1]]
       \<and> ret (orgsMembersListCmd env) = Returned None
       \<and> dataRows (orgsMembersListCmd env) =
           [[if session_Username session = profile_Username p then FaintString ''*'' else [],
             profile_Name p, FaintString (profile_Username p), Name (team_Body A)]]"
proof -
  let ?idx = "foldl (\<lambda>idx team. idx(team_ID team \<mapsto> team)) Map.empty [A, B]"
  have idxA: "?idx (team_ID A) = Some A" and idxB: "?idx (team_ID B) = Some B"
    using ids by simp_all
  have build: "buildIdx (MachineTeamName env) ?idx memberships (Map.empty, []) =
      Inr (Map.empty(U1 \<mapsto> [team_ID A]), [U1])"
    using order idxA idxB A B m1 m2 by (auto simp: setKey_def Let_def)
  have ro: "rangeOrder env [U1] = [U1]"
    using range by (rule rangeOrder_single)
  have rows: "orgsMembers_rows (xorshift_Next env) (precedence env) (Some session) (Map.empty(U1 \<mapsto> [team_ID A])) ?idx [p] =
      Inr [[if session_Username session = profile_Username p then FaintString ''*'' else [],
            profile_Name p, FaintString (profile_Username p), Name (team_Body A)]]"
    using orgsMembers_row_single [of ?idx "team_ID A" A "Map.empty(U1 \<mapsto> [team_ID A])" p
        "xorshift_Next env" "precedence env" session] idxA p
    by simp
  have ne: "memberships \<noteq> []" using order by auto
  have ptr: "ptrOf (Session_Who env) = Some session"
    using who by (simp add: ptrOf_def)
  have prof: "Profiles_ListByID env (rangeOrder env [U1]) = Inr (Some [p])"
    using profiles ro by simp
  show ?thesis
    using orgsMembersListCmd_rendered [OF cfg org teams ms ne refl build refl prof, unfolded ptr, OF rows]
    by (simp add: dataRows_def ro)
qed

theorem machine_only_member_is_left_out_witness:
  "profileRequests (orgsMembersListCmd acmeEnv) = [[1]]
   \<and> ret (orgsMembersListCmd acmeEnv) = Returned None
   \<and> dataRows (orgsMembersListCmd acmeEnv) = [[''*'', ''Ann'', ''ann'', ''admin'']]"
  using machine_only_member_is_left_out [where env = acmeEnv and org = acme
      and session = "\<lparr>session_ID = 1, session_Username = ''ann''\<rparr>"
      and A = teamAdmin and B = teamRobots
      and memberships = "[annInAdmin, botInRobots]" and ?m1.0 = annInAdmin and ?m2.0 = botInRobots
      and ?U1.0 = 1 and ?U2.0 = 2 and p = annProfile]
  by (simp add: acmeEnv_def acme_def annInAdmin_def botInRobots_def teamAdmin_def teamRobots_def
      annProfile_def isMachineTeam_def FaintString_def)

subsection \<open>The failure that a command returns\<close>

lemma MultiError_two_or_more:
  "2 \<le> length (nonNil slots) \<Longrightarrow> MultiError slots = Aggregate (nonNil slots)"
  by (cases "nonNil slots" rule: list.exhaust; cases "tl (nonNil slots)")
    (auto simp: MultiError_def)

lemma MultiError_single: "nonNil slots = [e] \<Longrightarrow> MultiError slots = e"
  by (simp add: MultiError_def)








subsection \<open>A session that could not be fetched\<close>

text \<open>
  Claim C2 at two invocations of orgsMembersListCmd in which \<^verbatim>\<open>client.Session.Who\<close> fails
  and the other calls succeed.  The error of the call is assigned to \<^verbatim>\<open>err\<close>, \<^verbatim>\<open>sErr\<close> stays
  nil, and the check after the join lets the command pass.  Where no user is left to
  show, the command prints the table with its header and returns nil; where a user is to
  be shown, it panics on the nil session while it builds the first row.
\<close>

theorem session_failure_goes_unnoticed:
  "errOf (Session_Who machinesOnlyEnv) = Some (RemoteError ''session expired'')
   \<and> orgsMembersListCmd machinesOnlyEnv =
       \<lparr>ret = Returned None,
        stdout = [Text [], Cells [[], ''Name'', ''Username'', ''Team''], Text [],
                  Text ''Org acme has (0) members''],
        profileRequests = [[]]\<rparr>
   \<and> errOf (Session_Who sessionDownEnv) = Some (RemoteError ''session expired'')
   \<and> orgsMembersListCmd sessionDownEnv =
       \<lparr>ret = Panicked nilDereference, stdout = [Text []], profileRequests = [[1]]\<rparr>"
  by (simp add: orgsMembersListCmd_def machinesOnlyEnv_def sessionDownEnv_def acmeEnv_def acme_def
      errOf_def listOf_def ptrOf_def orgsMembers_tErr_def botInRobots_def teamRobots_def
      teamAdmin_def annInAdmin_def annProfile_def isMachineTeam_def setKey_def
      orgsMembers_row_def BoldString_def FaintString_def plural_def Itoa.simps digit_def
      Let_def)

theorem session_failure_goes_unnoticed_witness:
  "ret (orgsMembersListCmd machinesOnlyEnv) = Returned None
   \<and> dataRows (orgsMembersListCmd machinesOnlyEnv) = []
   \<and> ret (orgsMembersListCmd sessionDownEnv) \<noteq>
       Returned (Some (ExitError ''Failed to get current session.''))"
  using session_failure_goes_unnoticed
  by (simp add: dataRows_def)

subsection \<open>The marker of the current actor\<close>

text \<open>
  What the three views put into the marker column.  teamMembersListCmd and
  orgsMembersListCmd mark the rows of the profiles whose username is the session's;
  teamsListCmd marks the rows of the teams that a membership of the session's user names.
\<close>

lemma teamMembers_rows_Some:
  "teamMembers_rows (Some s) profiles =
     Inr (map (\<lambda>p. [if session_Username s = profile_Username p then ''*'' else [],
                    profile_Name p, FaintString (profile_Username p)]) profiles)"
  by (induction profiles) simp_all

lemma orgsMembers_row_annotated:
  "orgsMembers_row Next rank (Some s) userTeamIdx teamsIdx user = Inr row \<Longrightarrow>
   annotated row \<longleftrightarrow> profile_Username user = session_Username s"
  by (auto simp: orgsMembers_row_def annotated_def FaintString_def Let_def
      split: sum.splits if_splits)

lemma orgsMembers_rows_annotated:
  "orgsMembers_rows Next rank (Some s) userTeamIdx teamsIdx users = Inr rows \<Longrightarrow>
   map annotated rows = map (\<lambda>p. profile_Username p = session_Username s) users"
proof (induction users arbitrary: rows)
  case Nil
  then show ?case by simp
next
  case (Cons user users)
  from Cons.prems obtain row rest where
    row: "orgsMembers_row Next rank (Some s) userTeamIdx teamsIdx user = Inr row" and
    rest: "orgsMembers_rows Next rank (Some s) userTeamIdx teamsIdx users = Inr rest" and
    rows: "rows = row # rest"
    by (auto split: sum.splits)
  show ?case
    using Cons.IH [OF rest] orgsMembers_row_annotated [OF row] by (simp add: rows)
qed

lemma distinct_at_most_one:
  "distinct (map f ps) \<Longrightarrow> length (filter (\<lambda>p. f p = u) ps) \<le> 1"
proof (induction ps)
  case Nil
  then show ?case by simp
next
  case (Cons p ps)
  have "filter (\<lambda>q. f q = u) ps = []" if "f p = u"
  proof -
    have "f q \<noteq> u" if "q \<in> set ps" for q
      using Cons.prems \<open>f p = u\<close> that by (metis distinct.simps(2) imageI list.simps(9) set_map)
    then show ?thesis by (simp add: filter_empty_conv)
  qed
  with Cons show ?case by auto
qed

lemma length_filter_map_bool:
  "map P xs = map Q ys \<Longrightarrow> length (filter P xs) = length (filter Q ys)"
proof (induction xs arbitrary: ys)
  case Nil
  then show ?case by simp
next
  case (Cons x xs)
  then obtain y ys' where "ys = y # ys'" by (cases ys) auto
  with Cons show ?case by auto
qed

lemma cellsOf_append: "cellsOf (xs @ ys) = cellsOf xs @ cellsOf ys"
  by (induction xs rule: cellsOf.induct) simp_all

lemma cellsOf_map_Cells: "cellsOf (map Cells rows) = rows"
  by (induction rows) simp_all

lemma cellsOf_map_Cells_comp: "cellsOf (map (Cells \<circ> f) xs) = map f xs"
  by (induction xs) simp_all

lemma teamMembers_annotation:
  assumes who: "Session_Who env = Inr session"
    and ok: "ret (teamMembersListCmd env) = Returned None"
    and req: "profileRequests (teamMembersListCmd env) = [ids]"
    and prof: "Profiles_ListByID env ids = Inr (Some profiles)"
  shows "dataRows (teamMembersListCmd env) =
     map (\<lambda>p. [if session_Username session = profile_Username p then ''*'' else [],
                    profile_Name p, FaintString (profile_Username p)]) profiles"
  using assms
  by (auto simp: teamMembersListCmd_def failWith_def Let_def ptrOf_def errOf_def dataRows_def
      teamMembers_rows_Some cellsOf_append cellsOf_map_Cells_comp cellsOf_map_Cells
      split: option.splits sum.splits if_splits)


lemma orgsMembers_annotation:
  assumes who: "Session_Who env = Inr session"
    and ok: "ret (orgsMembersListCmd env) = Returned None"
    and req: "profileRequests (orgsMembersListCmd env) = [ids]"
    and prof: "Profiles_ListByID env ids = Inr (Some users)"
  shows "map annotated (dataRows (orgsMembersListCmd env)) =
     map (\<lambda>p. profile_Username p = session_Username session) users"
  using assms
  by (auto simp: orgsMembersListCmd_def failWith_def Let_def ptrOf_def dataRows_def
      cellsOf_append cellsOf_map_Cells
      split: option.splits sum.splits if_splits prod.splits
      dest: orgsMembers_rows_annotated)

lemma markMemberOf_dom:
  "markMemberOf ms memberOf k \<noteq> None \<longleftrightarrow> memberOf k \<noteq> None \<or> k \<in> TeamID ` set ms"
  by (induction ms arbitrary: memberOf) auto

lemma teamRow_annotated:
  "annotated (teamRow memberOf t) \<longleftrightarrow> memberOf (team_ID t) \<noteq> None"
  by (simp add: teamRow_def annotated_def FaintString_def)

lemma teamsList_rows:
  assumes "LoadConfig env = None" and "selectOrg env = Inr org"
    and "Session_Who env = Inr session"
    and "Teams_GetByOrg env (org_ID org) = Inr teams"
    and "Memberships_List env (org_ID org) None (Some (session_ID session)) = Inr memberships"
  shows "dataRows (teamsListCmd env) =
     map (teamRow (markMemberOf memberships Map.empty)) (visibleTeams (MachineTeamName env) teams)"
  using assms
  by (simp add: teamsListCmd_def teamsList_fetch_def errOf_def listOf_def dataRows_def
      teamsList_loop_visible cellsOf_append cellsOf_map_Cells_comp cellsOf_map_Cells)

text \<open>
  Claim C7, as the code has it.  With a session: teamsListCmd annotates the row of every
  team that is shown and that a membership of the session's user names; the two views of
  members annotate the rows of the profiles whose username is the session's username,
  which is at most one row when the usernames of the profiles received are distinct.
\<close>

theorem current_actor_annotation:
  assumes who: "Session_Who env = Inr session"
  shows "(\<forall>org teams memberships.
            LoadConfig env = None \<and> selectOrg env = Inr org
            \<and> Teams_GetByOrg env (org_ID org) = Inr teams
            \<and> Memberships_List env (org_ID org) None (Some (session_ID session)) = Inr memberships
            \<longrightarrow>
            map annotated (dataRows (teamsListCmd env)) =
              map (\<lambda>t. team_ID t \<in> TeamID ` set memberships)
                (visibleTeams (MachineTeamName env) teams))
       \<and> (\<forall>ids profiles.
            ret (teamMembersListCmd env) = Returned None
            \<and> profileRequests (teamMembersListCmd env) = [ids]
            \<and> Profiles_ListByID env ids = Inr (Some profiles) \<longrightarrow>
            map annotated (dataRows (teamMembersListCmd env)) =
              map (\<lambda>p. profile_Username p = session_Username session) profiles
            \<and> (distinct (map profile_Username profiles) \<longrightarrow>
                 length (filter annotated (dataRows (teamMembersListCmd env))) \<le> 1))
       \<and> (\<forall>ids users.
            ret (orgsMembersListCmd env) = Returned None
            \<and> profileRequests (orgsMembersListCmd env) = [ids]
            \<and> Profiles_ListByID env ids = Inr (Some users) \<longrightarrow>
            map annotated (dataRows (orgsMembersListCmd env)) =
              map (\<lambda>p. profile_Username p = session_Username session) users
            \<and> (distinct (map profile_Username users) \<longrightarrow>
                 length (filter annotated (dataRows (orgsMembersListCmd env))) \<le> 1))"
proof (intro conjI allI impI; (elim conjE)?)
  fix org teams memberships
  assume "LoadConfig env = None" "selectOrg env = Inr org"
    "Teams_GetByOrg env (org_ID org) = Inr teams"
    "Memberships_List env (org_ID org) None (Some (session_ID session)) = Inr memberships"
  then have "dataRows (teamsListCmd env) =
      map (teamRow (markMemberOf memberships Map.empty)) (visibleTeams (MachineTeamName env) teams)"
    using who by (simp add: teamsList_rows)
  then show "map annotated (dataRows (teamsListCmd env)) =
      map (\<lambda>t. team_ID t \<in> TeamID ` set memberships) (visibleTeams (MachineTeamName env) teams)"
    using markMemberOf_dom [of memberships Map.empty] by (simp add: teamRow_annotated comp_def)
next
  fix ids profiles
  assume a: "ret (teamMembersListCmd env) = Returned None"
    "profileRequests (teamMembersListCmd env) = [ids]"
    "Profiles_ListByID env ids = Inr (Some profiles)"
  have rows: "dataRows (teamMembersListCmd env) =
     map (\<lambda>p. [if session_Username session = profile_Username p then ''*'' else [],
                    profile_Name p, FaintString (profile_Username p)]) profiles"
    using who a by (rule teamMembers_annotation)
  show m: "map annotated (dataRows (teamMembersListCmd env)) =
      map (\<lambda>p. profile_Username p = session_Username session) profiles"
    unfolding rows by (auto simp: annotated_def)
  assume "distinct (map profile_Username profiles)"
  then show "length (filter annotated (dataRows (teamMembersListCmd env))) \<le> 1"
    using length_filter_map_bool [OF m] distinct_at_most_one [of profile_Username profiles]
    by simp
next
  fix ids users
  assume a: "ret (orgsMembersListCmd env) = Returned None"
    "profileRequests (orgsMembersListCmd env) = [ids]"
    "Profiles_ListByID env ids = Inr (Some users)"
  show m: "map annotated (dataRows (orgsMembersListCmd env)) =
      map (\<lambda>p. profile_Username p = session_Username session) users"
    using who a by (rule orgsMembers_annotation)
  assume "distinct (map profile_Username users)"
  then show "length (filter annotated (dataRows (orgsMembersListCmd env))) \<le> 1"
    using length_filter_map_bool [OF m] distinct_at_most_one [of profile_Username users]
    by simp
qed

theorem current_actor_annotation_witness:
  "map annotated (dataRows (teamsListCmd acmeEnv)) = [True]
   \<and> map annotated (dataRows (teamMembersListCmd acmeEnv)) = [True]
   \<and> length (filter annotated (dataRows (teamMembersListCmd acmeEnv))) \<le> 1
   \<and> map annotated (dataRows (orgsMembersListCmd acmeEnv)) = [True]
   \<and> length (filter annotated (dataRows (orgsMembersListCmd acmeEnv))) \<le> 1"
proof -
  note inst = current_actor_annotation [of acmeEnv "\<lparr>session_ID = 1, session_Username = ''ann''\<rparr>"]
  have who: "Session_Who acmeEnv = Inr \<lparr>session_ID = 1, session_Username = ''ann''\<rparr>"
    by (simp add: acmeEnv_def)
  have t: "map annotated (dataRows (teamsListCmd acmeEnv)) =
      map (\<lambda>t. team_ID t \<in> TeamID ` set [annInAdmin, botInRobots])
        (visibleTeams (MachineTeamName acmeEnv) [teamAdmin, teamRobots])"
    using inst [OF who, THEN conjunct1, rule_format, of acme "[teamAdmin, teamRobots]"
        "[annInAdmin, botInRobots]"]
    by (simp add: acmeEnv_def)
  have t': "map annotated (dataRows (teamsListCmd acmeEnv)) = [True]"
    unfolding t
    by (simp add: acmeEnv_def teamAdmin_def teamRobots_def annInAdmin_def botInRobots_def
        isMachineTeam_def)
  have run1: "ret (teamMembersListCmd acmeEnv) = Returned None
      \<and> profileRequests (teamMembersListCmd acmeEnv) = [[1, 2]]"
    by (simp add: teamMembersListCmd_def acmeEnv_def errOf_def listOf_def ptrOf_def
        annInAdmin_def botInRobots_def annProfile_def setKey_def Let_def)
  have prof1: "Profiles_ListByID acmeEnv [1, 2] = Inr (Some [annProfile])"
    by (simp add: acmeEnv_def annProfile_def)
  have m: "map annotated (dataRows (teamMembersListCmd acmeEnv)) =
        map (\<lambda>p. profile_Username p = ''ann'') [annProfile]
      \<and> (distinct (map profile_Username [annProfile]) \<longrightarrow>
           length (filter annotated (dataRows (teamMembersListCmd acmeEnv))) \<le> 1)"
    using inst [OF who, THEN conjunct2, THEN conjunct1, rule_format, of "[1, 2]" "[annProfile]"]
      run1 prof1
    by simp
  have run2: "ret (orgsMembersListCmd acmeEnv) = Returned None
      \<and> profileRequests (orgsMembersListCmd acmeEnv) = [[1]]"
    by (simp add: orgsMembersListCmd_def acmeEnv_def acme_def errOf_def listOf_def ptrOf_def
        orgsMembers_tErr_def annInAdmin_def botInRobots_def annProfile_def teamAdmin_def
        teamRobots_def isMachineTeam_def setKey_def orgsMembers_row_def sort_Sort_def Let_def)
  have prof2: "Profiles_ListByID acmeEnv [1] = Inr (Some [annProfile])"
    by (simp add: acmeEnv_def annProfile_def)
  have om: "map annotated (dataRows (orgsMembersListCmd acmeEnv)) =
        map (\<lambda>p. profile_Username p = ''ann'') [annProfile]
      \<and> (distinct (map profile_Username [annProfile]) \<longrightarrow>
           length (filter annotated (dataRows (orgsMembersListCmd acmeEnv))) \<le> 1)"
    using inst [OF who, THEN conjunct2, THEN conjunct2, rule_format, of "[1]" "[annProfile]"]
      run2 prof2
    by simp
  show ?thesis
    using t' m om by (simp add: annProfile_def)
qed

text \<open>
  The claim as the specification words it fails on teamsListCmd: Ann is a member of the
  teams admin and devs, and both rows carry the marker.
\<close>

theorem two_rows_annotated:
  "filter annotated (dataRows (teamsListCmd twoTeamsEnv)) =
     [[''*'', ''admin'', ''user''], [''*'', ''devs'', ''user'']]
   \<and> length (filter annotated (dataRows (teamsListCmd twoTeamsEnv))) = 2"
  by (auto simp: teamsListCmd_def teamsList_fetch_def twoTeamsEnv_def acmeEnv_def acme_def
      errOf_def listOf_def dataRows_def annotated_def teamRow_def displayTeamType_def
      teamAdmin_def teamDevs_def annInAdmin_def annInDevs_def isMachineTeam_def
      BoldString_def FaintString_def)

subsection \<open>The tasks of teamsListCmd under every interleaving\<close>

text \<open>The invariant holds at the start and every step of every task keeps it.\<close>

lemma tasksInv_init: "tasksInv env org initTasks"
  by (simp add: tasksInv_def initTasks_def)

lemma tasksInv_session0:
  "tasksInv env org s \<Longrightarrow> pcSession s = 0 \<Longrightarrow>
   tasksInv env org (s\<lparr>v_session := ptrOf (Session_Who env), v_sErr := errOf (Session_Who env),
                    calls := calls s @ [CallWho], pcSession := Suc 0\<rparr>)"
  by (cases "Session_Who env") (simp_all add: tasksInv_def)

lemma tasksInv_session1:
  "tasksInv env org s \<Longrightarrow> pcSession s = 1 \<Longrightarrow>
   tasksInv env org ((Done_getMemberships SessionTask s)\<lparr>pcSession := 2\<rparr>)"
  by (cases "Session_Who env") (simp_all add: tasksInv_def Done_getMemberships_def)

lemma tasksInv_teams0:
  "tasksInv env org s \<Longrightarrow> pcTeams s = 0 \<Longrightarrow>
   tasksInv env org (s\<lparr>v_teams := listOf (Teams_GetByOrg env (org_ID org)),
                    v_tErr := errOf (Teams_GetByOrg env (org_ID org)),
                    calls := calls s @ [CallGetByOrg], pcTeams := Suc 0\<rparr>)"
  by (cases "Session_Who env") (simp_all add: tasksInv_def)

lemma tasksInv_teams1:
  "tasksInv env org s \<Longrightarrow> pcTeams s = 1 \<Longrightarrow>
   tasksInv env org ((Done_display TeamsTask s)\<lparr>pcTeams := 2\<rparr>)"
  by (cases "Session_Who env") (simp_all add: tasksInv_def Done_display_def)

lemma tasksInv_memberships0:
  "tasksInv env org s \<Longrightarrow> pcMemberships s = 0 \<Longrightarrow> getMemberships s = 0 \<Longrightarrow>
   tasksInv env org (s\<lparr>pcMemberships := Suc 0\<rparr>)"
  by (cases "Session_Who env") (simp_all add: tasksInv_def split: if_splits)

lemma tasksInv_memberships1_skip:
  "tasksInv env org s \<Longrightarrow> pcMemberships s = 1 \<Longrightarrow> v_sErr s \<noteq> None \<Longrightarrow>
   tasksInv env org (s\<lparr>pcMemberships := 2\<rparr>)"
  by (cases "Session_Who env") (auto simp: tasksInv_def errOf_def)

lemma tasksInv_memberships1_call:
  "tasksInv env org s \<Longrightarrow> pcMemberships s = 1 \<Longrightarrow> v_sErr s = None \<Longrightarrow>
   v_session s = Some session \<Longrightarrow>
   listed = Memberships_List env (org_ID org) None (Some (session_ID session)) \<Longrightarrow>
   tasksInv env org (s\<lparr>v_memberships := listOf listed, v_sErr := errOf listed,
                        calls := calls s @ [CallMembershipsList], pcMemberships := 2\<rparr>)"
  by (cases "Session_Who env") (auto simp: tasksInv_def errOf_def ptrOf_def)

lemma tasksInv_memberships1_session:
  "tasksInv env org s \<Longrightarrow> pcMemberships s = 1 \<Longrightarrow> v_sErr s = None \<Longrightarrow> v_session s \<noteq> None"
  by (cases "Session_Who env") (auto simp: tasksInv_def errOf_def ptrOf_def)

lemma tasksInv_memberships2:
  "tasksInv env org s \<Longrightarrow> pcMemberships s = 2 \<Longrightarrow>
   tasksInv env org (s\<lparr>v_memberOf := markMemberOf (v_memberships s) (v_memberOf s),
                        pcMemberships := 3\<rparr>)"
  by (cases "Session_Who env") (simp_all add: tasksInv_def)

lemma tasksInv_memberships3:
  "tasksInv env org s \<Longrightarrow> pcMemberships s = 3 \<Longrightarrow>
   tasksInv env org ((Done_display MembershipsTask s)\<lparr>pcMemberships := 4\<rparr>)"
  by (cases "Session_Who env") (simp_all add: tasksInv_def Done_display_def)

lemma tasksInv_main0:
  "tasksInv env org s \<Longrightarrow> pcMain s = 0 \<Longrightarrow> display s = 0 \<Longrightarrow>
   tasksInv env org (s\<lparr>pcMain := Suc 0\<rparr>)"
  by (cases "Session_Who env") (simp_all add: tasksInv_def split: if_splits)

lemma tasksInv_not_crashed: "tasksInv env org s \<Longrightarrow> \<not> crashed s"
  by (simp add: tasksInv_def)

lemma tasksInv_step:
  assumes inv: "tasksInv env org s" and st: "step env org t s = Some s'"
  shows "tasksInv env org s'"
proof (cases t)
  case SessionTask
  with st inv show ?thesis
    by (auto simp: step_def tasksInv_not_crashed split: if_splits
        intro: tasksInv_session0 tasksInv_session1)
next
  case TeamsTask
  with st inv show ?thesis
    by (auto simp: step_def tasksInv_not_crashed split: if_splits
        intro: tasksInv_teams0 tasksInv_teams1)
next
  case MembershipsTask
  with st inv show ?thesis
    using tasksInv_memberships1_session [OF inv]
    by (auto simp: step_def tasksInv_not_crashed Let_def split: if_splits option.splits
        intro: tasksInv_memberships0 tasksInv_memberships1_skip tasksInv_memberships1_call
          tasksInv_memberships2 tasksInv_memberships3)
next
  case MainTask
  with st inv show ?thesis
    by (auto simp: step_def tasksInv_not_crashed split: if_splits intro: tasksInv_main0)
qed

lemma tasksInv_runTasks: "tasksInv env org s \<Longrightarrow> tasksInv env org (runTasks env org sched s)"
  by (induction sched arbitrary: s) (auto split: option.splits intro: tasksInv_step)

text \<open>
  From the invariant: a task can move as long as the command waits, every move brings the
  end nearer, each task signals once, and the variables after the join are those of
  \<open>teamsList_fetch\<close>.
\<close>

lemma tasksInvD:
  assumes "tasksInv env org s"
  shows "\<not> crashed s"
    and "pcSession s \<le> 2" and "pcTeams s \<le> 2" and "pcMemberships s \<le> 4" and "pcMain s \<le> 1"
    and "getMemberships s = (if pcSession s = 2 then 0 else 1)"
    and "display s = (if pcTeams s = 2 then 0 else 1) + (if pcMemberships s = 4 then 0 else 1)"
    and "mset (signals s) =
         (if pcSession s = 2 then {#SessionTask#} else {#})
         + (if pcTeams s = 2 then {#TeamsTask#} else {#})
         + (if pcMemberships s = 4 then {#MembershipsTask#} else {#})"
    and "1 \<le> pcMemberships s \<longrightarrow> pcSession s = 2"
    and "pcMain s = 1 \<longrightarrow> pcTeams s = 2 \<and> pcMemberships s = 4"
  using assms unfolding tasksInv_def by blast+

lemma step_session_enabled:
  "\<not> crashed s \<Longrightarrow> pcSession s < 2 \<Longrightarrow> step env org SessionTask s \<noteq> None"
  by (simp add: step_def)

lemma step_teams_enabled:
  "\<not> crashed s \<Longrightarrow> pcTeams s < 2 \<Longrightarrow> step env org TeamsTask s \<noteq> None"
  by (simp add: step_def)

lemma step_memberships_enabled:
  "\<not> crashed s \<Longrightarrow> pcMemberships s < 4 \<Longrightarrow> getMemberships s = 0 \<Longrightarrow>
   step env org MembershipsTask s \<noteq> None"
  by (simp add: step_def Let_def split: option.splits)

lemma step_main_enabled:
  "\<not> crashed s \<Longrightarrow> pcMain s = 0 \<Longrightarrow> display s = 0 \<Longrightarrow> step env org MainTask s \<noteq> None"
  by (simp add: step_def)

lemma tasks_progress:
  assumes inv: "tasksInv env org s" and main: "pcMain s = 0"
  shows "\<exists>t. step env org t s \<noteq> None"
proof -
  note d = tasksInvD [OF inv]
  show ?thesis
  proof (cases "pcSession s < 2")
    case True
    then show ?thesis using step_session_enabled d(1) by blast
  next
    case s2: False
    then have gm: "getMemberships s = 0" using d(2) d(6) by simp
    show ?thesis
    proof (cases "pcTeams s < 2")
      case True
      then show ?thesis using step_teams_enabled d(1) by blast
    next
      case t2: False
      show ?thesis
      proof (cases "pcMemberships s < 4")
        case True
        then show ?thesis using step_memberships_enabled d(1) gm by blast
      next
        case False
        then have "display s = 0" using t2 d(3) d(4) d(7) by simp
        then show ?thesis using step_main_enabled d(1) main by blast
      qed
    qed
  qed
qed


lemma measure_session:
  "step env org SessionTask s = Some s' \<Longrightarrow> remaining s' < remaining s"
  by (simp add: step_def remaining_def Done_getMemberships_def split: if_splits) auto

lemma measure_teams:
  "step env org TeamsTask s = Some s' \<Longrightarrow> remaining s' < remaining s"
  by (simp add: step_def remaining_def Done_display_def split: if_splits) auto

lemma measure_main:
  "step env org MainTask s = Some s' \<Longrightarrow> remaining s' < remaining s"
  by (simp add: step_def remaining_def split: if_splits) auto


lemma measure_memberships:
  assumes inv: "tasksInv env org s" and st: "step env org MembershipsTask s = Some s'"
  shows "remaining s' < remaining s"
proof -
  have nc: "\<not> crashed s" using st by (auto simp: step_def split: if_splits)
  consider "pcMemberships s = 0" | "pcMemberships s = 1" | "pcMemberships s = 2"
    | "pcMemberships s = 3" | "4 \<le> pcMemberships s"
    by linarith
  then show ?thesis
  proof cases
    case 1
    with st nc show ?thesis by (auto simp: step_def remaining_def split: if_splits)
  next
    case 2
    show ?thesis
    proof (cases "v_sErr s = None")
      case True
      with tasksInv_memberships1_session [OF inv 2] obtain session where "v_session s = Some session"
        by auto
      with st nc 2 True show ?thesis by (auto simp: step_def remaining_def Let_def)
    next
      case False
      with st nc 2 show ?thesis by (auto simp: step_def remaining_def)
    qed
  next
    case 3
    with st nc show ?thesis by (auto simp: step_def remaining_def)
  next
    case 4
    with st nc show ?thesis by (auto simp: step_def remaining_def Done_display_def)
  next
    case 5
    with st nc show ?thesis by (auto simp: step_def)
  qed
qed

lemma tasks_measure:
  assumes inv: "tasksInv env org s" and st: "step env org t s = Some s'"
  shows "remaining s' < remaining s"
  using st measure_session measure_teams measure_main measure_memberships [OF inv]
  by (cases t) blast+

lemma tasks_signals_once:
  assumes inv: "tasksInv env org s"
  shows "count (mset (signals s)) t \<le> 1"
  by (cases t) (simp_all add: tasksInvD(8) [OF inv])

lemma tasks_released:
  assumes inv: "tasksInv env org s" and main: "pcMain s = 1"
  shows "mset (signals s) = {#SessionTask, TeamsTask, MembershipsTask#} \<and> remaining s = 0"
proof -
  note d = tasksInvD [OF inv]
  have "pcTeams s = 2" "pcMemberships s = 4" using d(10) main by simp_all
  moreover from this have "pcSession s = 2" using d(9) by simp
  ultimately show ?thesis using d(8) main by (simp add: remaining_def)
qed


lemma tasksInvD_vars:
  assumes "tasksInv env org s"
  shows "pcMemberships s \<le> 1 \<longrightarrow> CallMembershipsList \<notin> set (calls s) \<and> v_memberships s = []"
    and "pcMemberships s \<le> 2 \<longrightarrow> v_memberOf s = Map.empty"
    and "2 \<le> pcMemberships s \<longrightarrow>
          (case Session_Who env of
             Inl e \<Rightarrow>
               v_sErr s = Some e \<and> v_memberships s = [] \<and> CallMembershipsList \<notin> set (calls s)
           | Inr session \<Rightarrow>
               v_sErr s = errOf (Memberships_List env (org_ID org) None (Some (session_ID session)))
               \<and> v_memberships s =
                   listOf (Memberships_List env (org_ID org) None (Some (session_ID session))))"
    and "3 \<le> pcMemberships s \<longrightarrow> v_memberOf s = markMemberOf (v_memberships s) Map.empty"
    and "1 \<le> pcTeams s \<longrightarrow>
          v_tErr s = errOf (Teams_GetByOrg env (org_ID org))
          \<and> v_teams s = listOf (Teams_GetByOrg env (org_ID org))"
  using assms unfolding tasksInv_def by blast+

lemma tasks_prerequisite_failed:
  assumes inv: "tasksInv env org s" and who: "Session_Who env = Inl e"
  shows "CallMembershipsList \<notin> set (calls s) \<and> v_memberOf s = Map.empty"
proof -
  note v = tasksInvD_vars [OF inv]
  consider "pcMemberships s \<le> 1" | "pcMemberships s = 2" | "3 \<le> pcMemberships s"
    by linarith
  then show ?thesis
  proof cases
    case 1
    then show ?thesis using v(1) v(2) by simp
  next
    case 2
    then show ?thesis using v(2) v(3) who by simp
  next
    case 3
    then show ?thesis using v(3) v(4) who by simp
  qed
qed

lemma tasks_join_values:
  assumes inv: "tasksInv env org s" and main: "pcMain s = 1"
  shows "(v_sErr s, v_tErr s, v_teams s, v_memberOf s) = teamsList_fetch env org"
proof -
  note v = tasksInvD_vars [OF inv]
  have pcs: "pcTeams s = 2" "pcMemberships s = 4" using tasksInvD(10) [OF inv] main by simp_all
  show ?thesis
  proof (cases "Session_Who env")
    case (Inl e)
    then show ?thesis using v(3) v(4) v(5) pcs by (simp add: teamsList_fetch_def Let_def)
  next
    case (Inr session)
    then show ?thesis using v(3) v(4) v(5) pcs by (simp add: teamsList_fetch_def Let_def)
  qed
qed

lemma tasksInv_reached: "tasksInv env org (runTasks env org sched initTasks)"
  by (rule tasksInv_runTasks [OF tasksInv_init])

lemma runTasks_append:
  "runTasks env org (a @ b) s = runTasks env org b (runTasks env org a s)"
  by (induction a arbitrary: s) simp_all

lemma tasks_can_finish:
  "tasksInv env org s \<Longrightarrow>
   \<exists>more. length more \<le> remaining s \<and> pcMain (runTasks env org more s) = 1"
proof (induction "remaining s" arbitrary: s rule: less_induct)
  case less
  show ?case
  proof (cases "pcMain s = 1")
    case True
    then have "length [] \<le> remaining s \<and> pcMain (runTasks env org [] s) = 1" by simp
    then show ?thesis by blast
  next
    case False
    then have main: "pcMain s = 0" using tasksInvD(5) [OF less.prems] by simp
    obtain t s' where st: "step env org t s = Some s'"
      using tasks_progress [OF less.prems main] by auto
    have lt: "remaining s' < remaining s" using tasks_measure [OF less.prems st] .
    have inv': "tasksInv env org s'" using tasksInv_step [OF less.prems st] .
    obtain more where m: "length more \<le> remaining s'" "pcMain (runTasks env org more s') = 1"
      using less.hyps [OF lt inv'] by blast
    have "length (t # more) \<le> remaining s \<and> pcMain (runTasks env org (t # more) s) = 1"
      using m lt st by simp
    then show ?thesis by blast
  qed
qed

text \<open>
  Claim C4.  In every state \<open>s\<close> that an interleaving of the tasks of teamsListCmd
  reaches: when \<^verbatim>\<open>client.Session.Who\<close> failed, \<^verbatim>\<open>client.Memberships.List\<close> has not been
  called and \<^verbatim>\<open>memberOf\<close> is empty; no \<^verbatim>\<open>Done()\<close> has panicked and no task has signalled
  twice; while the command waits at \<^verbatim>\<open>display.Wait()\<close> some task can move, every move
  lowers the number of steps that remain, and the schedule can be continued, by no more
  steps than remain, to a state in which the command is past the wait; once the command
  is past the wait, each of the three tasks has signalled exactly once and no step is
  left.
\<close>

theorem memberships_task_discipline:
  assumes "s = runTasks env org sched initTasks"
  shows "(\<forall>e. Session_Who env = Inl e \<longrightarrow>
            CallMembershipsList \<notin> set (calls s) \<and> v_memberOf s = Map.empty)
       \<and> \<not> crashed s
       \<and> (\<forall>t. count (mset (signals s)) t \<le> 1)
       \<and> (pcMain s = 0 \<longrightarrow> (\<exists>t. step env org t s \<noteq> None))
       \<and> (\<forall>t s'. step env org t s = Some s' \<longrightarrow> remaining s' < remaining s)
       \<and> (\<exists>more. length more \<le> remaining s
              \<and> pcMain (runTasks env org (sched @ more) initTasks) = 1)
       \<and> (pcMain s = 1 \<longrightarrow>
            mset (signals s) = {#SessionTask, TeamsTask, MembershipsTask#} \<and> remaining s = 0)"
proof -
  have inv: "tasksInv env org s"
    unfolding assms by (rule tasksInv_reached)
  have a: "\<forall>e. Session_Who env = Inl e \<longrightarrow>
      CallMembershipsList \<notin> set (calls s) \<and> v_memberOf s = Map.empty"
    using tasks_prerequisite_failed [OF inv] by blast
  have b: "\<not> crashed s" using tasksInvD(1) [OF inv] .
  have c: "\<forall>t. count (mset (signals s)) t \<le> 1"
    using tasks_signals_once [OF inv] by blast
  have d: "pcMain s = 0 \<longrightarrow> (\<exists>t. step env org t s \<noteq> None)"
    using tasks_progress [OF inv] by blast
  have e: "\<forall>t s'. step env org t s = Some s' \<longrightarrow> remaining s' < remaining s"
    using tasks_measure [OF inv] by blast
  have f: "\<exists>more. length more \<le> remaining s
      \<and> pcMain (runTasks env org (sched @ more) initTasks) = 1"
    using tasks_can_finish [OF inv] by (simp add: runTasks_append assms)
  have g: "pcMain s = 1 \<longrightarrow>
      mset (signals s) = {#SessionTask, TeamsTask, MembershipsTask#} \<and> remaining s = 0"
    using tasks_released [OF inv] by blast
  show ?thesis
    using a b c d e f g by (intro conjI)
qed

theorem memberships_task_discipline_witness:
  "Session_Who sessionDownEnv = Inl (RemoteError ''session expired'')
   \<and> calls (runTasks sessionDownEnv acme impatientSchedule initTasks) = [CallWho, CallGetByOrg]
   \<and> v_memberOf (runTasks sessionDownEnv acme impatientSchedule initTasks) = Map.empty
   \<and> pcMain (runTasks sessionDownEnv acme impatientSchedule initTasks) = 1
   \<and> signals (runTasks sessionDownEnv acme impatientSchedule initTasks) =
       [SessionTask, TeamsTask, MembershipsTask]
   \<and> remaining (runTasks sessionDownEnv acme impatientSchedule initTasks) = 0"
proof -
  have who: "Session_Who sessionDownEnv = Inl (RemoteError ''session expired'')"
    by (simp add: sessionDownEnv_def acmeEnv_def)
  have run: "calls (runTasks sessionDownEnv acme impatientSchedule initTasks) = [CallWho, CallGetByOrg]
      \<and> pcMain (runTasks sessionDownEnv acme impatientSchedule initTasks) = 1
      \<and> signals (runTasks sessionDownEnv acme impatientSchedule initTasks) =
          [SessionTask, TeamsTask, MembershipsTask]"
    by (simp add: impatientSchedule_def initTasks_def step_def Done_getMemberships_def
        Done_display_def sessionDownEnv_def acmeEnv_def errOf_def ptrOf_def listOf_def)
  show ?thesis
    using memberships_task_discipline [of "runTasks sessionDownEnv acme impatientSchedule initTasks"
        sessionDownEnv acme impatientSchedule, OF refl] who run
    by simp
qed

end
